theory Spec2Isabelle
  imports Complex_Main
begin

section \<open>Values shared by both gateway variants\<close>

text \<open>
  Go's \<open>[]byte\<close> and \<open>string\<close> are byte sequences; \<open>len\<close> counts bytes. Isabelle's
  \<open>char\<close> is one byte, so both are \<open>string\<close> here and \<open>len\<close> is \<open>length\<close>.
  Go's \<open>int\<close> has 64 bits. The only arithmetic on it in this program adds lengths of
  strings held in memory and adds one to a request counter, neither of which can come
  near \<open>2^63\<close>; the model uses \<open>int\<close>.
\<close>

type_synonym bytes = string

datatype error =
    SyntaxError
  | UnmarshalTypeError
  | Errorf string error
  | IOError string

definition cheapModelURL :: string where
  "cheapModelURL = ''http://localhost:8081/v1/chat/completions''"

definition expensiveModelURL :: string where
  "expensiveModelURL = ''http://localhost:8082/v1/chat/completions''"

definition apiKeyEnv :: string where
  "apiKeyEnv = ''LLM_GATEWAY_API_KEY''"

definition promptLengthThreshold :: int where
  "promptLengthThreshold = 150"

definition cheapModelCostPerChar :: real where
  "cheapModelCostPerChar = 1 / 10000000"

definition expensiveModelCostPerChar :: real where
  "expensiveModelCostPerChar = 15 / 10000000"

record Message =
  Role :: string
  Content :: string

record RequestPayload =
  Messages :: "Message list"

section \<open>Decoding the request body\<close>

text \<open>
  \<open>json.Unmarshal(bodyBytes, &payload)\<close> belongs to Go's standard library. It works in
  two passes. The first checks the bytes against the JSON grammar; it is a parameter
  \<open>scan\<close> of the model, giving the value tree of a well-formed text and \<open>None\<close> for a
  syntax error. The second stores the value into the Go variable, directed by the two
  struct types declared in the source; it is modelled below after the rules the package
  documents for \<open>Unmarshal\<close>:
  \<^item> a JSON object is stored into a struct key by key, in the order of the text; a key
    selects the field whose \<open>json\<close> tag it equals, also when the two differ only in
    letter case; a key that selects no field is skipped together with its value;
  \<^item> \<open>null\<close> leaves a struct or a string as it is and makes a slice \<open>nil\<close>;
  \<^item> a JSON array is stored into a slice entry by entry, and the entry at a position is
    decoded into the element the backing array of the slice already holds at that
    position. This shows when a key is repeated: the elements of the earlier array
    are not cleared, so a field that the later entry does not mention keeps its old
    value. The length of the slice becomes the number of entries; the elements
    beyond stay in the backing array. An empty array gives a new, empty slice;
  \<^item> any other combination is an \<open>UnmarshalTypeError\<close>. The library goes on decoding
    and reports the first such error at the end; the callers here only test
    \<open>err != nil\<close>, so the model stops at the first one.
\<close>

datatype json =
    JNull
  | JBool bool
  | JNumber string
  | JString string
  | JArray "json list"
  | JObject "(string \<times> json) list"

text \<open>
  The folding of a key for the comparison without letter case. Besides the ASCII
  letters, the two runes that fold to an ASCII letter matter for an ASCII tag: U+017F
  (long s, bytes C5 BF) folds to S and U+212A (Kelvin sign, bytes E2 84 AA) to K.
\<close>

definition foldByte :: "char \<Rightarrow> char" where
  "foldByte c =
     (if (97::nat) \<le> of_char c \<and> (of_char c :: nat) \<le> 122
      then char_of ((of_char c :: nat) - 32) else c)"

fun foldName :: "string \<Rightarrow> string" where
  "foldName [] = []"
| "foldName (c # cs) =
     (if (of_char c :: nat) = 0xC5 \<and> cs \<noteq> [] \<and> (of_char (hd cs) :: nat) = 0xBF
        then CHR ''S'' # foldName (tl cs)
      else if (of_char c :: nat) = 0xE2 \<and> length cs \<ge> 2 \<and> (of_char (hd cs) :: nat) = 0x84
              \<and> (of_char (hd (tl cs)) :: nat) = 0xAA
        then CHR ''K'' # foldName (tl (tl cs))
      else foldByte c # foldName cs)"

definition decodeString :: "json \<Rightarrow> string \<Rightarrow> error + string" where
  "decodeString v cur =
     (case v of JString s \<Rightarrow> Inr s | JNull \<Rightarrow> Inr cur | _ \<Rightarrow> Inl UnmarshalTypeError)"

fun decodeMessageFields :: "(string \<times> json) list \<Rightarrow> Message \<Rightarrow> error + Message" where
  "decodeMessageFields [] m = Inr m"
| "decodeMessageFields ((k, v) # kvs) m =
     (if foldName k = foldName ''role'' then
        (case decodeString v (Role m) of
           Inl e \<Rightarrow> Inl e
         | Inr s \<Rightarrow> decodeMessageFields kvs (m\<lparr>Role := s\<rparr>))
      else if foldName k = foldName ''content'' then
        (case decodeString v (Content m) of
           Inl e \<Rightarrow> Inl e
         | Inr s \<Rightarrow> decodeMessageFields kvs (m\<lparr>Content := s\<rparr>))
      else decodeMessageFields kvs m)"

definition decodeMessage :: "json \<Rightarrow> Message \<Rightarrow> error + Message" where
  "decodeMessage v m =
     (case v of
        JNull \<Rightarrow> Inr m
      | JObject kvs \<Rightarrow> decodeMessageFields kvs m
      | _ \<Rightarrow> Inl UnmarshalTypeError)"

text \<open>
  \<open>decodeElements vs backing\<close> stores the entries \<open>vs\<close> into the elements of the backing
  array from its start; where the array has no element yet, a new one is the zero
  \<open>Message\<close>.
\<close>

fun decodeElements :: "json list \<Rightarrow> Message list \<Rightarrow> error + Message list" where
  "decodeElements [] backing = Inr []"
| "decodeElements (v # vs) backing =
     (case decodeMessage v (case backing of [] \<Rightarrow> \<lparr>Role = [], Content = []\<rparr> | m # _ \<Rightarrow> m) of
        Inl e \<Rightarrow> Inl e
      | Inr m \<Rightarrow>
          (case decodeElements vs (drop 1 backing) of
             Inl e \<Rightarrow> Inl e
           | Inr ms \<Rightarrow> Inr (m # ms)))"

text \<open>
  A slice is given by its elements \<open>cur\<close> and by \<open>spare\<close>, the elements of its backing
  array beyond its length. \<open>decodeMessages\<close> returns both for the slice after the store.
\<close>

definition decodeMessages :: "json \<Rightarrow> Message list \<Rightarrow> Message list
    \<Rightarrow> error + Message list \<times> Message list" where
  "decodeMessages v cur spare =
     (case v of
        JNull \<Rightarrow> Inr ([], [])
      | JArray vs \<Rightarrow>
          if vs = [] then Inr ([], [])
          else (case decodeElements vs (cur @ spare) of
                  Inl e \<Rightarrow> Inl e
                | Inr ms \<Rightarrow> Inr (ms, drop (length vs) (cur @ spare)))
      | _ \<Rightarrow> Inl UnmarshalTypeError)"

fun decodePayloadFields :: "(string \<times> json) list \<Rightarrow> RequestPayload \<Rightarrow> Message list
    \<Rightarrow> error + RequestPayload" where
  "decodePayloadFields [] p spare = Inr p"
| "decodePayloadFields ((k, v) # kvs) p spare =
     (if foldName k = foldName ''messages'' then
        (case decodeMessages v (Messages p) spare of
           Inl e \<Rightarrow> Inl e
         | Inr (ms, spare') \<Rightarrow> decodePayloadFields kvs (p\<lparr>Messages := ms\<rparr>) spare')
      else decodePayloadFields kvs p spare)"

definition decodePayload :: "json \<Rightarrow> RequestPayload \<Rightarrow> error + RequestPayload" where
  "decodePayload v p =
     (case v of
        JNull \<Rightarrow> Inr p
      | JObject kvs \<Rightarrow> decodePayloadFields kvs p []
      | _ \<Rightarrow> Inl UnmarshalTypeError)"

text \<open>The target is the zero value of \<open>var payload RequestPayload\<close>: a \<open>nil\<close> slice.\<close>

definition json_Unmarshal :: "(bytes \<Rightarrow> json option) \<Rightarrow> bytes \<Rightarrow> error + RequestPayload" where
  "json_Unmarshal scan bodyBytes =
     (case scan bodyBytes of
        None \<Rightarrow> Inl SyntaxError
      | Some v \<Rightarrow> decodePayload v \<lparr>Messages = []\<rparr>)"

section \<open>The prompt analysers\<close>

text \<open>
  \<open>getPromptLength\<close> of the metrics-bearing gateway: the \<open>range\<close> loop over
  \<open>payload.Messages\<close> is a left fold carrying \<open>totalLength\<close>.
\<close>

definition getPromptLength :: "(bytes \<Rightarrow> json option) \<Rightarrow> bytes \<Rightarrow> error + int" where
  "getPromptLength scan bodyBytes =
     (case json_Unmarshal scan bodyBytes of
        Inl err \<Rightarrow> Inl (Errorf ''failed to unmarshal JSON request body'' err)
      | Inr payload \<Rightarrow>
          Inr (foldl (\<lambda>totalLength message.
                  if Role message = ''user''
                  then totalLength + int (length (Content message))
                  else totalLength) 0 (Messages payload)))"

text \<open>
  The model selection of \<open>LLMProxyHandler\<close> (its step 3): three variables assigned in
  the two branches of one comparison.
\<close>

record RoutingDecision =
  targetURL :: string
  modelName :: string
  costPerChar :: real

definition selectModel :: "int \<Rightarrow> RoutingDecision" where
  "selectModel totalPromptLength =
     (if totalPromptLength \<le> promptLengthThreshold
      then \<lparr>targetURL = cheapModelURL, modelName = ''CheapModel'',
            costPerChar = cheapModelCostPerChar\<rparr>
      else \<lparr>targetURL = expensiveModelURL, modelName = ''ExpensiveModel'',
            costPerChar = expensiveModelCostPerChar\<rparr>)"

text \<open>
  \<open>analyzePrompt\<close> of the earlier gateway: every message counts, whatever its role,
  and a body that does not decode is routed to the cheap model.
\<close>

definition analyzePrompt :: "(bytes \<Rightarrow> json option) \<Rightarrow> bytes \<Rightarrow> string \<times> string" where
  "analyzePrompt scan bodyBytes =
     (case json_Unmarshal scan bodyBytes of
        Inl err \<Rightarrow> (cheapModelURL, ''CheapModel'')
      | Inr payload \<Rightarrow>
          (let totalLength = foldl (\<lambda>totalLength msg. totalLength + int (length (Content msg)))
                                0 (Messages payload)
           in if totalLength > 150 then (expensiveModelURL, ''ExpensiveModel'')
              else (cheapModelURL, ''CheapModel'')))"

section \<open>The usage metrics\<close>

text \<open>
  \<open>TotalCost\<close> is a \<open>float64\<close>. The model keeps its value as a real number and takes
  the rounding of every \<open>float64\<close> operation as a parameter \<open>rnd\<close>: the result of an
  operation is \<open>rnd\<close> of the exact result. What the proofs below need of \<open>rnd\<close> is
  collected in \<open>float64_rounding\<close>; rounding to nearest has all three properties.
  (Overflow to infinity is out of reach of sums of such costs.)
\<close>

definition float64_rounding :: "(real \<Rightarrow> real) \<Rightarrow> bool" where
  "float64_rounding rnd \<longleftrightarrow>
     (\<forall>x y. x \<le> y \<longrightarrow> rnd x \<le> rnd y) \<and> (\<forall>x. rnd (rnd x) = rnd x) \<and> rnd 0 = 0"

record LLMUsageMetrics =
  TotalRequests :: int
  TotalCost :: real
  ModelUsage :: "string \<rightharpoonup> int"

text \<open>The initial value of the package variable, and the two assignments that open \<open>main\<close>.\<close>

definition globalMetrics :: LLMUsageMetrics where
  "globalMetrics = \<lparr>TotalRequests = 0, TotalCost = 0, ModelUsage = Map.empty\<rparr>"

definition main_seed :: "LLMUsageMetrics \<Rightarrow> LLMUsageMetrics" where
  "main_seed g =
     g\<lparr>ModelUsage := (ModelUsage g)(''CheapModel'' \<mapsto> 0, ''ExpensiveModel'' \<mapsto> 0)\<rparr>"

text \<open>
  The three statements between \<open>metricsMutex.Lock()\<close> and \<open>metricsMutex.Unlock()\<close> in
  \<open>LLMProxyHandler\<close>. Reading a key that a Go map does not hold gives 0.
\<close>

definition usageCount :: "(string \<rightharpoonup> int) \<Rightarrow> string \<Rightarrow> int" where
  "usageCount m k = (case m k of None \<Rightarrow> 0 | Some n \<Rightarrow> n)"

definition updateMetrics :: "(real \<Rightarrow> real) \<Rightarrow> string \<Rightarrow> real \<Rightarrow> LLMUsageMetrics \<Rightarrow> LLMUsageMetrics" where
  "updateMetrics rnd name estimatedCost g =
     g\<lparr>TotalRequests := TotalRequests g + 1,
       TotalCost := rnd (TotalCost g + estimatedCost),
       ModelUsage := (ModelUsage g)(name \<mapsto> usageCount (ModelUsage g) name + 1)\<rparr>"

definition usageSum :: "(string \<rightharpoonup> int) \<Rightarrow> int" where
  "usageSum m = (\<Sum>k\<in>dom m. usageCount m k)"

text \<open>
  The state of the metrics between two updates: the counts add up to the total, over
  finitely many keys, and the cost is a \<open>float64\<close> value.
\<close>

definition consistent :: "(real \<Rightarrow> real) \<Rightarrow> LLMUsageMetrics \<Rightarrow> bool" where
  "consistent rnd g \<longleftrightarrow> finite (dom (ModelUsage g)) \<and> TotalRequests g = usageSum (ModelUsage g)
      \<and> rnd (TotalCost g) = TotalCost g"

section \<open>Requests, responses and the response writer\<close>

text \<open>
  An \<open>http.Header\<close> maps a canonical header name to its list of values.
  \<open>Header.Get\<close> gives the first value, or the empty string; \<open>Header.Set\<close> replaces
  the list by one value.
\<close>

type_synonym header = "string \<rightharpoonup> string list"

definition Header_Get :: "header \<Rightarrow> string \<Rightarrow> string" where
  "Header_Get h key = (case h key of None \<Rightarrow> [] | Some [] \<Rightarrow> [] | Some (v # _) \<Rightarrow> v)"

definition Header_Set :: "header \<Rightarrow> string \<Rightarrow> string \<Rightarrow> header" where
  "Header_Set h key v = h(key \<mapsto> [v])"

text \<open>
  The inbound request. \<open>Body\<close> is what \<open>io.ReadAll(r.Body)\<close> returns.
\<close>

record Request =
  Method :: string
  ReqHeader :: header
  Body :: "error + bytes"

record ProxyRequest =
  ProxyMethod :: string
  ProxyURL :: string
  ProxyHeader :: header
  ProxyBody :: bytes

record Response =
  StatusCode :: int
  RespHeader :: header
  RespBody :: bytes

text \<open>
  The \<open>http.ResponseWriter\<close> the server hands to a handler. \<open>handlerHeader\<close> is the map
  that \<open>w.Header()\<close> returns. \<open>WriteHeader\<close> fixes the status and the header of the
  response: it stores a copy of the map as \<open>sentHeader\<close>, and the interface documents
  that changing the map after a call to \<open>WriteHeader\<close> or \<open>Write\<close> has no effect, unless
  the status was of the 1xx class. A second call is ignored. A code outside 100..999
  makes the server's \<open>WriteHeader\<close> panic (\<open>None\<close> here); a code of the 1xx class other
  than 101 sends an informational response with the current map and leaves the writer
  open for the final one (the client never returns such a code as the status of a
  response: it reads on to the final one). \<open>Write\<close> first calls \<open>WriteHeader(200)\<close> if
  no status has been fixed yet. \<open>sentHeader\<close> holds the fields the handler contributes;
  the server adds its own, such as the date.
\<close>

record ResponseWriter =
  handlerHeader :: header
  wroteHeader :: bool
  status :: int
  sentHeader :: header
  informational :: "(int \<times> header) list"
  written :: bytes

definition newResponse :: ResponseWriter where
  "newResponse = \<lparr>handlerHeader = Map.empty, wroteHeader = False, status = 0,
                   sentHeader = Map.empty, informational = [], written = []\<rparr>"

definition commitHeader :: "int \<Rightarrow> ResponseWriter \<Rightarrow> ResponseWriter" where
  "commitHeader code w = w\<lparr>wroteHeader := True, status := code, sentHeader := handlerHeader w\<rparr>"

definition WriteHeader :: "int \<Rightarrow> ResponseWriter \<Rightarrow> ResponseWriter option" where
  "WriteHeader code w =
     (if wroteHeader w then Some w
      else if code < 100 \<or> code > 999 then None
      else if 100 \<le> code \<and> code \<le> 199 \<and> code \<noteq> 101
        then Some (w\<lparr>informational := informational w @ [(code, handlerHeader w)]\<rparr>)
      else Some (commitHeader code w))"

definition Write :: "bytes \<Rightarrow> ResponseWriter \<Rightarrow> ResponseWriter" where
  "Write data w =
     (let w' = (if wroteHeader w then w else commitHeader 200 w)
      in w'\<lparr>written := written w' @ data\<rparr>)"

text \<open>
  \<open>http.Error\<close>: two header fields, the status, and the message followed by a newline.
  (Recent releases of Go also remove a \<^verbatim>\<open>Content-Length\<close> field set before; this handler
  sets none.)
\<close>

definition http_Error :: "ResponseWriter \<Rightarrow> string \<Rightarrow> int \<Rightarrow> ResponseWriter option" where
  "http_Error w msg code =
     (let h = Header_Set (handlerHeader w) ''Content-Type'' ''text/plain; charset=utf-8'';
          h = Header_Set h ''X-Content-Type-Options'' ''nosniff''
      in case WriteHeader code (w\<lparr>handlerHeader := h\<rparr>) of
           None \<Rightarrow> None
         | Some w' \<Rightarrow> Some (Write (msg @ [CHR 0x0A]) w'))"

text \<open>
  What the server sends once the handler has returned: a handler that never fixed a
  status gets 200 with the header map as it then is.
\<close>

definition finishRequest :: "ResponseWriter \<Rightarrow> ResponseWriter" where
  "finishRequest w = (if wroteHeader w then w else commitHeader 200 w)"

section \<open>The proxy handler\<close>

text \<open>
  Everything the handler obtains from outside the program is a field of \<open>World\<close>:
  the JSON grammar, the \<open>float64\<close> rounding, the process environment, the error of
  \<open>http.NewRequest\<close>, the upstream exchange \<open>client.Do\<close> (an error stands for a failed
  connection or the timeout), and the result of \<open>io.Copy(w, resp.Body)\<close>, the number
  of bytes passed on and the error that stopped the copy, if any.
\<close>

record World =
  scan :: "bytes \<Rightarrow> json option"
  fl :: "real \<Rightarrow> real"
  Getenv :: "string \<Rightarrow> string"
  NewRequest :: "string \<Rightarrow> string \<Rightarrow> bytes \<Rightarrow> error option"
  Do :: "ProxyRequest \<Rightarrow> error + Response"
  Copy :: "Response \<Rightarrow> nat \<times> error option"

text \<open>
  The result of one call of the handler: the metrics after it, the response writer
  after it, the requests it passed to \<open>client.Do\<close>, and whether it ended in a panic
  (which the server catches: the connection is closed, and no statement of the handler
  after the panic runs). The \<open>log.Printf\<close> calls, the clock and the deferred
  \<open>resp.Body.Close()\<close> are left out.
\<close>

record Outcome =
  metrics :: LLMUsageMetrics
  writer :: ResponseWriter
  upstream :: "ProxyRequest list"
  panicked :: bool

definition replied :: "LLMUsageMetrics \<Rightarrow> ProxyRequest list \<Rightarrow> ResponseWriter \<Rightarrow> ResponseWriter option \<Rightarrow> Outcome" where
  "replied g calls w res =
     (case res of
        None \<Rightarrow> \<lparr>metrics = g, writer = w, upstream = calls, panicked = True\<rparr>
      | Some w' \<Rightarrow> \<lparr>metrics = g, writer = w', upstream = calls, panicked = False\<rparr>)"

text \<open>
  \<open>estimatedCost := float64(totalPromptLength) * costPerChar\<close>: the conversion, the
  constant and the product are each rounded to a \<open>float64\<close>.
\<close>

definition estimateCost :: "(real \<Rightarrow> real) \<Rightarrow> int \<Rightarrow> real \<Rightarrow> real" where
  "estimateCost rnd totalPromptLength rate = rnd (rnd (real_of_int totalPromptLength) * rnd rate)"

text \<open>The outbound credential (step 4 of the handler).\<close>

definition resolveAuth :: "World \<Rightarrow> Request \<Rightarrow> string" where
  "resolveAuth W r =
     (let authHeader = Header_Get (ReqHeader r) ''Authorization''
      in if authHeader = [] then
           (let apiKey = Getenv W apiKeyEnv
            in if apiKey \<noteq> [] then ''Bearer '' @ apiKey else authHeader)
         else authHeader)"

text \<open>
  The upstream request (steps 4 and 5): method and body as received, a header map made
  anew with the credential, if there is one, and the inbound \<^verbatim>\<open>Content-Type\<close>.
\<close>

definition newProxyRequest :: "World \<Rightarrow> Request \<Rightarrow> bytes \<Rightarrow> string \<Rightarrow> ProxyRequest" where
  "newProxyRequest W r bodyBytes url =
     (let authHeader = resolveAuth W r;
          contentType = Header_Get (ReqHeader r) ''Content-Type'';
          h = (if authHeader \<noteq> [] then Header_Set Map.empty ''Authorization'' authHeader
               else Map.empty)
      in \<lparr>ProxyMethod = Method r, ProxyURL = url,
          ProxyHeader = Header_Set h ''Content-Type'' contentType,
          ProxyBody = bodyBytes\<rparr>)"

text \<open>
  Step 7 once the status is written: the upstream header is copied into the map of the
  writer, then the body is copied to the caller.
\<close>

definition streamBack :: "World \<Rightarrow> Response \<Rightarrow> ResponseWriter \<Rightarrow> ResponseWriter" where
  "streamBack W resp w1 =
     (let w2 = w1\<lparr>handlerHeader := handlerHeader w1 ++ RespHeader resp\<rparr>;
          (responseSize, err) = Copy W resp
      in if responseSize = 0 then w2 else Write (take responseSize (RespBody resp)) w2)"

definition LLMProxyHandler :: "World \<Rightarrow> LLMUsageMetrics \<Rightarrow> ResponseWriter \<Rightarrow> Request \<Rightarrow> Outcome" where
  "LLMProxyHandler W g w r =
     (if Method r \<noteq> ''POST'' then replied g [] w (http_Error w ''Method not allowed'' 405)
      else case Body r of
        Inl err \<Rightarrow> replied g [] w (http_Error w ''Failed to read request body'' 500)
      | Inr bodyBytes \<Rightarrow>
         (case getPromptLength (scan W) bodyBytes of
            Inl err \<Rightarrow>
              replied g [] w (http_Error w
                ''Invalid request format: must be a valid chat completion JSON payload'' 400)
          | Inr totalPromptLength \<Rightarrow>
             (let d = selectModel totalPromptLength;
                  estimatedCost = estimateCost (fl W) totalPromptLength (costPerChar d)
              in case NewRequest W (Method r) (targetURL d) bodyBytes of
                   Some err \<Rightarrow>
                     replied g [] w (http_Error w ''Error creating upstream request'' 500)
                 | None \<Rightarrow>
                    (let proxyReq = newProxyRequest W r bodyBytes (targetURL d)
                     in case Do W proxyReq of
                          Inl err \<Rightarrow>
                            replied g [proxyReq] w (http_Error w
                              (''Error connecting to '' @ modelName d @ '' endpoint'') 502)
                        | Inr resp \<Rightarrow>
                           (case WriteHeader (StatusCode resp) w of
                              None \<Rightarrow> \<lparr>metrics = g, writer = w, upstream = [proxyReq],
                                       panicked = True\<rparr>
                            | Some w1 \<Rightarrow>
                                \<lparr>metrics = updateMetrics (fl W) (modelName d) estimatedCost g,
                                 writer = streamBack W resp w1, upstream = [proxyReq],
                                 panicked = False\<rparr>)))))"

text \<open>
  Requests served one after the other, each by a fresh response writer, starting from
  the metrics \<open>g\<close>; every request comes with the world it meets.
\<close>

definition serveAll :: "(World \<times> Request) list \<Rightarrow> LLMUsageMetrics \<Rightarrow> LLMUsageMetrics" where
  "serveAll reqs g = foldl (\<lambda>g (W, r). metrics (LLMProxyHandler W g newResponse r)) g reqs"

section \<open>Concurrent requests\<close>

text \<open>
  The server runs every request in a goroutine of its own. The only shared variables
  are \<open>globalMetrics\<close> and \<open>metricsMutex\<close>; the model of the concurrent program keeps
  those two and, for every goroutine, the part of its handler that touches them.

  A \<open>Record\<close> job is the end of \<open>LLMProxyHandler\<close>: \<open>Lock\<close>, the three updates, \<open>Unlock\<close>.
  Each update is a load into a register of the goroutine followed by a store, so that
  the model does not assume any statement to be atomic. A \<open>Report\<close> job is
  \<open>MetricsHandler\<close>: \<open>Lock\<close>, the encoder reading the three fields one after the other
  into \<open>seen\<close>, and the deferred \<open>Unlock\<close>.

  A step of a goroutine at \<open>AtLock\<close> takes the mutex if it is free and otherwise leaves
  everything as it is (the goroutine waits). An interleaving is a schedule: the list
  of the goroutines' indices in the order in which they take their steps.
\<close>

datatype job = Record string real | Report

datatype label =
    AtLock
  | LoadTotalRequests | StoreTotalRequests
  | LoadTotalCost | StoreTotalCost
  | LoadModelUsage | StoreModelUsage
  | ReadTotalRequests | ReadTotalCost | ReadModelUsage
  | AtUnlock
  | Returned

record goroutine =
  job :: job
  pc :: label
  regInt :: int
  regFloat :: real
  seen :: LLMUsageMetrics

record config =
  shared :: LLMUsageMetrics
  locked :: bool
  goroutines :: "goroutine list"

fun recordStep :: "(real \<Rightarrow> real) \<Rightarrow> string \<Rightarrow> real \<Rightarrow> goroutine \<Rightarrow> bool \<Rightarrow> LLMUsageMetrics
    \<Rightarrow> goroutine \<times> bool \<times> LLMUsageMetrics" where
  "recordStep rnd name cost t l g =
     (case pc t of
        AtLock \<Rightarrow> if l then (t, l, g) else (t\<lparr>pc := LoadTotalRequests\<rparr>, True, g)
      | LoadTotalRequests \<Rightarrow> (t\<lparr>pc := StoreTotalRequests, regInt := TotalRequests g\<rparr>, l, g)
      | StoreTotalRequests \<Rightarrow> (t\<lparr>pc := LoadTotalCost\<rparr>, l, g\<lparr>TotalRequests := regInt t + 1\<rparr>)
      | LoadTotalCost \<Rightarrow> (t\<lparr>pc := StoreTotalCost, regFloat := TotalCost g\<rparr>, l, g)
      | StoreTotalCost \<Rightarrow> (t\<lparr>pc := LoadModelUsage\<rparr>, l, g\<lparr>TotalCost := rnd (regFloat t + cost)\<rparr>)
      | LoadModelUsage \<Rightarrow>
          (t\<lparr>pc := StoreModelUsage, regInt := usageCount (ModelUsage g) name\<rparr>, l, g)
      | StoreModelUsage \<Rightarrow>
          (t\<lparr>pc := AtUnlock\<rparr>, l, g\<lparr>ModelUsage := (ModelUsage g)(name \<mapsto> regInt t + 1)\<rparr>)
      | AtUnlock \<Rightarrow> (t\<lparr>pc := Returned\<rparr>, False, g)
      | _ \<Rightarrow> (t, l, g))"

fun reportStep :: "goroutine \<Rightarrow> bool \<Rightarrow> LLMUsageMetrics \<Rightarrow> goroutine \<times> bool \<times> LLMUsageMetrics" where
  "reportStep t l g =
     (case pc t of
        AtLock \<Rightarrow> if l then (t, l, g) else (t\<lparr>pc := ReadTotalRequests\<rparr>, True, g)
      | ReadTotalRequests \<Rightarrow>
          (t\<lparr>pc := ReadTotalCost, seen := (seen t)\<lparr>TotalRequests := TotalRequests g\<rparr>\<rparr>, l, g)
      | ReadTotalCost \<Rightarrow>
          (t\<lparr>pc := ReadModelUsage, seen := (seen t)\<lparr>TotalCost := TotalCost g\<rparr>\<rparr>, l, g)
      | ReadModelUsage \<Rightarrow>
          (t\<lparr>pc := AtUnlock, seen := (seen t)\<lparr>ModelUsage := ModelUsage g\<rparr>\<rparr>, l, g)
      | AtUnlock \<Rightarrow> (t\<lparr>pc := Returned\<rparr>, False, g)
      | _ \<Rightarrow> (t, l, g))"

definition goroutineStep :: "(real \<Rightarrow> real) \<Rightarrow> goroutine \<Rightarrow> bool \<Rightarrow> LLMUsageMetrics
    \<Rightarrow> goroutine \<times> bool \<times> LLMUsageMetrics" where
  "goroutineStep rnd t l g =
     (case job t of
        Record name cost \<Rightarrow> recordStep rnd name cost t l g
      | Report \<Rightarrow> reportStep t l g)"

definition step :: "(real \<Rightarrow> real) \<Rightarrow> nat \<Rightarrow> config \<Rightarrow> config" where
  "step rnd i c =
     (if i < length (goroutines c) then
        (case goroutineStep rnd (goroutines c ! i) (locked c) (shared c) of
           (t', l', g') \<Rightarrow> \<lparr>shared = g', locked = l', goroutines = (goroutines c)[i := t']\<rparr>)
      else c)"

definition run :: "(real \<Rightarrow> real) \<Rightarrow> nat list \<Rightarrow> config \<Rightarrow> config" where
  "run rnd schedule c = foldl (\<lambda>c i. step rnd i c) c schedule"

text \<open>
  The start: the metrics as \<open>main\<close> leaves them, the mutex free, one goroutine per job,
  none of which has taken a step.
\<close>

definition spawn :: "job \<Rightarrow> goroutine" where
  "spawn j = \<lparr>job = j, pc = AtLock, regInt = 0, regFloat = 0, seen = globalMetrics\<rparr>"

definition initial :: "job list \<Rightarrow> config" where
  "initial jobs = \<lparr>shared = main_seed globalMetrics, locked = False, goroutines = map spawn jobs\<rparr>"

definition isRecord :: "job \<Rightarrow> bool" where
  "isRecord j = (case j of Record name cost \<Rightarrow> True | Report \<Rightarrow> False)"

definition allReturned :: "config \<Rightarrow> bool" where
  "allReturned c = list_all (\<lambda>t. pc t = Returned) (goroutines c)"

text \<open>
  For the proofs: a goroutine is in the critical section from the moment it has taken
  the mutex until it has released it; \<open>addedTotal\<close> and \<open>addedUsage\<close> say whether its
  increment of \<open>TotalRequests\<close>, respectively of its \<open>ModelUsage\<close> entry, has been stored;
  \<open>localInv\<close> relates its registers and its copy to the shared metrics; \<open>stepsLeft\<close>
  counts the steps a goroutine still has to take.
\<close>

definition inCritical :: "goroutine \<Rightarrow> bool" where
  "inCritical t \<longleftrightarrow> pc t \<noteq> AtLock \<and> pc t \<noteq> Returned"

definition addedTotal :: "goroutine \<Rightarrow> int" where
  "addedTotal t =
     (if isRecord (job t) \<and> pc t \<in> {LoadTotalCost, StoreTotalCost, LoadModelUsage,
                                       StoreModelUsage, AtUnlock, Returned}
      then 1 else 0)"

definition addedUsage :: "goroutine \<Rightarrow> int" where
  "addedUsage t = (if isRecord (job t) \<and> pc t \<in> {AtUnlock, Returned} then 1 else 0)"

definition localInv :: "LLMUsageMetrics \<Rightarrow> goroutine \<Rightarrow> bool" where
  "localInv g t =
     (case job t of
        Record name cost \<Rightarrow>
          pc t \<notin> {ReadTotalRequests, ReadTotalCost, ReadModelUsage}
          \<and> (pc t = StoreTotalRequests \<longrightarrow> regInt t = TotalRequests g)
          \<and> (pc t = StoreModelUsage \<longrightarrow> regInt t = usageCount (ModelUsage g) name)
      | Report \<Rightarrow>
          pc t \<notin> {LoadTotalRequests, StoreTotalRequests, LoadTotalCost, StoreTotalCost,
                   LoadModelUsage, StoreModelUsage}
          \<and> (pc t \<in> {ReadTotalCost, ReadModelUsage} \<longrightarrow> TotalRequests (seen t) = TotalRequests g)
          \<and> (pc t \<in> {AtUnlock, Returned} \<longrightarrow>
                TotalRequests (seen t) = usageSum (ModelUsage (seen t))))"

definition invariant :: "config \<Rightarrow> bool" where
  "invariant c \<longleftrightarrow>
     finite (dom (ModelUsage (shared c)))
     \<and> TotalRequests (shared c) = sum_list (map addedTotal (goroutines c))
     \<and> usageSum (ModelUsage (shared c)) = sum_list (map addedUsage (goroutines c))
     \<and> (locked c \<longleftrightarrow> (\<exists>i<length (goroutines c). inCritical (goroutines c ! i)))
     \<and> (\<forall>i<length (goroutines c). \<forall>j<length (goroutines c).
           inCritical (goroutines c ! i) \<and> inCritical (goroutines c ! j) \<longrightarrow> i = j)
     \<and> (\<forall>i<length (goroutines c). localInv (shared c) (goroutines c ! i))"

fun stepsLeft :: "label \<Rightarrow> nat" where
  "stepsLeft AtLock = 8"
| "stepsLeft LoadTotalRequests = 7"
| "stepsLeft StoreTotalRequests = 6"
| "stepsLeft LoadTotalCost = 5"
| "stepsLeft StoreTotalCost = 4"
| "stepsLeft LoadModelUsage = 3"
| "stepsLeft StoreModelUsage = 2"
| "stepsLeft ReadTotalRequests = 4"
| "stepsLeft ReadTotalCost = 3"
| "stepsLeft ReadModelUsage = 2"
| "stepsLeft AtUnlock = 1"
| "stepsLeft Returned = 0"

definition remaining :: "config \<Rightarrow> nat" where
  "remaining c = sum_list (map (\<lambda>t. stepsLeft (pc t)) (goroutines c))"

section \<open>Example data\<close>

text \<open>
  A request in the manner of the README, the readings of a few request bodies by the
  JSON grammar (every other text counts as a syntax error here), and a world around
  them: exact arithmetic, a configured key, an upstream whose behaviour is the
  argument, and a copy that passes the whole body on.
\<close>

definition exampleBody :: bytes where
  \<open>exampleBody = ''{"messages":[{"role":"user","content":"hi"}]}''\<close>

definition systemBody :: bytes where
  \<open>systemBody = ''{"messages":[{"role":"system","content":5}]}''\<close>

definition mixedBody :: bytes where
  \<open>mixedBody =
     ''{"messages":[{"role":"system","content":"be brief"},{"role":"user","content":"hi"}]}''\<close>

definition briefBody :: bytes where
  \<open>briefBody = ''{"messages":[{"role":"system","content":"be brief"}]}''\<close>

definition repeatedBody :: bytes where
  \<open>repeatedBody = ''{"messages":[{"role":"user","content":"hello"}],"messages":[{}]}''\<close>

definition shrunkBody :: bytes where
  \<open>shrunkBody =
     ''{"messages":[{"role":"user"},{"role":"user","content":"abc"}],"messages":[{"content":"de"}],"messages":[{},{},{}]}''\<close>

definition exampleScan :: "bytes \<Rightarrow> json option" where
  "exampleScan =
     [repeatedBody \<mapsto>
        JObject [(''messages'',
                   JArray [JObject [(''role'', JString ''user''), (''content'', JString ''hello'')]]),
                 (''messages'', JArray [JObject []])],
      shrunkBody \<mapsto>
        JObject [(''messages'',
                   JArray [JObject [(''role'', JString ''user'')],
                           JObject [(''role'', JString ''user''), (''content'', JString ''abc'')]]),
                 (''messages'', JArray [JObject [(''content'', JString ''de'')]]),
                 (''messages'', JArray [JObject [], JObject [], JObject []])],
      briefBody \<mapsto>
        JObject [(''messages'',
          JArray [JObject [(''role'', JString ''system''), (''content'', JString ''be brief'')]])],
      mixedBody \<mapsto>
        JObject [(''messages'',
          JArray [JObject [(''role'', JString ''system''), (''content'', JString ''be brief'')],
                  JObject [(''role'', JString ''user''), (''content'', JString ''hi'')]])],
      exampleBody \<mapsto>
        JObject [(''messages'',
          JArray [JObject [(''role'', JString ''user''), (''content'', JString ''hi'')]])],
      systemBody \<mapsto>
        JObject [(''messages'',
          JArray [JObject [(''role'', JString ''system''), (''content'', JNumber ''5'')]])],
      ''[]'' \<mapsto> JArray [],
      ''{}'' \<mapsto> JObject []]"

definition exampleRequest :: "bytes \<Rightarrow> Request" where
  "exampleRequest b =
     \<lparr>Method = ''POST'', ReqHeader = [''Content-Type'' \<mapsto> [''application/json'']],
      Body = Inr b\<rparr>"

definition exampleResponse :: "int \<Rightarrow> Response" where
  "exampleResponse code =
     \<lparr>StatusCode = code, RespHeader = [''X-Request-Id'' \<mapsto> [''abc'']], RespBody = ''ok''\<rparr>"

definition exampleWorld :: "error + Response \<Rightarrow> World" where
  "exampleWorld up =
     \<lparr>scan = exampleScan, fl = (\<lambda>x. x),
      Getenv = (\<lambda>k. if k = apiKeyEnv then ''secret'' else []),
      NewRequest = (\<lambda>m u b. None),
      Do = (\<lambda>q. up),
      Copy = (\<lambda>resp. (length (RespBody resp), None))\<rparr>"

text \<open>
  Two recording goroutines and one reporting goroutine, and a schedule in which the
  second and the third find the mutex taken before their turn comes.
\<close>

definition exampleJobs :: "job list" where
  "exampleJobs = [Record ''CheapModel'' (1 / 5000000), Report, Record ''ExpensiveModel'' (3 / 10000)]"

definition exampleSchedule :: "nat list" where
  "exampleSchedule = [0, 1, 2, 0, 0, 1, 0, 0, 0, 0, 0, 1, 2, 1, 1, 1, 1, 2, 2, 2, 2, 2, 2, 2, 2]"

section \<open>Auxiliary facts\<close>

lemmas example_defs = exampleScan_def exampleBody_def systemBody_def mixedBody_def briefBody_def
  repeatedBody_def shrunkBody_def
  exampleRequest_def exampleResponse_def exampleWorld_def apiKeyEnv_def

lemmas decode_defs = json_Unmarshal_def decodePayload_def decodeMessages_def decodeMessage_def
  decodeString_def foldByte_def

lemmas writer_defs = replied_def http_Error_def WriteHeader_def Write_def commitHeader_def
  newResponse_def Header_Set_def Header_Get_def

lemma foldl_user_length:
  "foldl (\<lambda>totalLength message.
            if Role message = ''user''
            then totalLength + int (length (Content message))
            else totalLength) acc ms
   = acc + (\<Sum>m\<leftarrow>filter (\<lambda>m. Role m = ''user'') ms. int (length (Content m)))"
  by (induction ms arbitrary: acc) auto

lemma foldl_all_length:
  "foldl (\<lambda>totalLength msg. totalLength + int (length (Content msg))) acc ms
   = acc + (\<Sum>m\<leftarrow>ms. int (length (Content m)))"
  by (induction ms arbitrary: acc) auto

lemma getPromptLength_nonneg: "getPromptLength sc b = Inr L \<Longrightarrow> 0 \<le> L"
  by (auto simp: getPromptLength_def foldl_user_length split: sum.splits intro!: sum_list_nonneg)

lemma exampleBody_decodes:
  "json_Unmarshal exampleScan exampleBody = Inr \<lparr>Messages = [\<lparr>Role = ''user'', Content = ''hi''\<rparr>]\<rparr>"
  by (simp add: example_defs decode_defs)

lemma mixedBody_decodes:
  "json_Unmarshal exampleScan mixedBody
     = Inr \<lparr>Messages = [\<lparr>Role = ''system'', Content = ''be brief''\<rparr>,
                        \<lparr>Role = ''user'', Content = ''hi''\<rparr>]\<rparr>"
  by (simp add: example_defs decode_defs)

lemma exampleBody_length: "getPromptLength exampleScan exampleBody = Inr 2"
  by (simp add: getPromptLength_def exampleBody_decodes)

lemma briefBody_decodes:
  "json_Unmarshal exampleScan briefBody
     = Inr \<lparr>Messages = [\<lparr>Role = ''system'', Content = ''be brief''\<rparr>]\<rparr>"
  by (simp add: example_defs decode_defs)

text \<open>
  A repeated key. The second array of \<open>repeatedBody\<close> has one empty object, which is
  stored into the message of the first array and changes nothing: the length is 5. In
  \<open>shrunkBody\<close> the second array shortens the slice to one element and the third makes
  it three long again, which brings the second element of the first array back.
\<close>

lemma repeatedBody_decodes:
  "json_Unmarshal exampleScan repeatedBody
     = Inr \<lparr>Messages = [\<lparr>Role = ''user'', Content = ''hello''\<rparr>]\<rparr>"
  "getPromptLength exampleScan repeatedBody = Inr 5"
  by (simp_all add: getPromptLength_def example_defs decode_defs)

lemma shrunkBody_decodes:
  "json_Unmarshal exampleScan shrunkBody
     = Inr \<lparr>Messages = [\<lparr>Role = ''user'', Content = ''de''\<rparr>,
                        \<lparr>Role = ''user'', Content = ''abc''\<rparr>,
                        \<lparr>Role = [], Content = []\<rparr>]\<rparr>"
  "getPromptLength exampleScan shrunkBody = Inr 5"
  by (simp_all add: getPromptLength_def example_defs decode_defs)

section \<open>The routing threshold\<close>

text \<open>
  C1. For every prompt length \<open>L\<close> the model selection takes the cheap endpoint with
  the label \<^verbatim>\<open>CheapModel\<close> exactly when \<open>L \<le> 150\<close>, and the expensive endpoint with the
  label \<^verbatim>\<open>ExpensiveModel\<close> exactly when \<open>L > 150\<close>. The selection is a function of \<open>L\<close>
  alone and is defined for every integer.
\<close>

theorem selectModel_threshold:
  "((targetURL (selectModel L) = cheapModelURL \<and> modelName (selectModel L) = ''CheapModel'')
      = (L \<le> 150))
   \<and> ((targetURL (selectModel L) = expensiveModelURL
        \<and> modelName (selectModel L) = ''ExpensiveModel'') = (L > 150))"
  by (simp add: selectModel_def promptLengthThreshold_def cheapModelURL_def expensiveModelURL_def)

text \<open>The handler passes the request to no other endpoint than the selected one.\<close>

lemma handler_uses_selectModel:
  assumes "Body r = Inr b" and "getPromptLength (scan W) b = Inr L"
  shows "list_all (\<lambda>q. ProxyURL q = targetURL (selectModel L)) (upstream (LLMProxyHandler W g w r))"
  using assms
  by (simp add: LLMProxyHandler_def replied_def Let_def newProxyRequest_def
      split: option.split sum.split)

section \<open>The prompt length\<close>

text \<open>
  C5. When the body decodes into a payload, \<open>getPromptLength\<close> succeeds, and its result
  is the sum of the byte lengths of the contents of exactly those messages whose role
  is \<^verbatim>\<open>user\<close>; a message with another role adds nothing and raises no error.
\<close>

theorem getPromptLength_sums_user_content:
  "json_Unmarshal sc b = Inr p \<Longrightarrow>
   getPromptLength sc b
     = Inr (\<Sum>m\<leftarrow>filter (\<lambda>m. Role m = ''user'') (Messages p). int (length (Content m)))"
  by (simp add: getPromptLength_def foldl_user_length)

theorem getPromptLength_sums_user_content_witness:
  "json_Unmarshal exampleScan mixedBody
     = Inr \<lparr>Messages = [\<lparr>Role = ''system'', Content = ''be brief''\<rparr>,
                        \<lparr>Role = ''user'', Content = ''hi''\<rparr>]\<rparr>
   \<and> getPromptLength exampleScan mixedBody = Inr 2"
  using getPromptLength_sums_user_content [OF mixedBody_decodes] mixedBody_decodes by simp

section \<open>Malformed bodies\<close>

text \<open>
  C3. A POST request whose body was read but does not decode into the payload
  structure (a syntax error or a value of the wrong type) is answered with status 400;
  the handler makes no upstream call and returns the metrics exactly as it found them.
\<close>

theorem malformed_body_rejected:
  "Method r = ''POST'' \<Longrightarrow> Body r = Inr b \<Longrightarrow> json_Unmarshal (scan W) b = Inl e \<Longrightarrow>
   wroteHeader (writer (LLMProxyHandler W g newResponse r))
   \<and> status (writer (LLMProxyHandler W g newResponse r)) = 400
   \<and> upstream (LLMProxyHandler W g newResponse r) = []
   \<and> metrics (LLMProxyHandler W g newResponse r) = g"
  by (simp add: LLMProxyHandler_def getPromptLength_def writer_defs Let_def)

theorem malformed_body_rejected_witness:
  "Method (exampleRequest ''{'') = ''POST''
   \<and> Body (exampleRequest ''{'') = Inr ''{''
   \<and> json_Unmarshal (scan (exampleWorld (Inr (exampleResponse 200)))) ''{'' = Inl SyntaxError
   \<and> status (writer (LLMProxyHandler (exampleWorld (Inr (exampleResponse 200)))
        (main_seed globalMetrics) newResponse (exampleRequest ''{''))) = 400
   \<and> upstream (LLMProxyHandler (exampleWorld (Inr (exampleResponse 200)))
        (main_seed globalMetrics) newResponse (exampleRequest ''{'')) = []
   \<and> metrics (LLMProxyHandler (exampleWorld (Inr (exampleResponse 200)))
        (main_seed globalMetrics) newResponse (exampleRequest ''{'')) = main_seed globalMetrics"
proof -
  have m: "Method (exampleRequest ''{'') = ''POST''"
    and b: "Body (exampleRequest ''{'') = Inr ''{''"
    by (simp_all add: exampleRequest_def)
  have u: "json_Unmarshal (scan (exampleWorld (Inr (exampleResponse 200)))) ''{'' = Inl SyntaxError"
    by (simp add: example_defs decode_defs)
  from malformed_body_rejected [OF m b u, of "main_seed globalMetrics"] m b u
  show ?thesis by simp
qed

section \<open>The outbound credential\<close>



section \<open>The two gateway variants\<close>

text \<open>
  C10. When the body decodes into a payload all of whose messages have the role
  \<^verbatim>\<open>user\<close>, \<open>analyzePrompt\<close> of the earlier gateway returns the destination and the
  model name that the later gateway selects for the length \<open>getPromptLength\<close> computes.
\<close>

theorem variants_agree_on_user_payloads:
  "json_Unmarshal sc b = Inr p \<Longrightarrow> \<forall>m\<in>set (Messages p). Role m = ''user'' \<Longrightarrow>
   \<exists>L. getPromptLength sc b = Inr L
     \<and> analyzePrompt sc b = (targetURL (selectModel L), modelName (selectModel L))"
proof -
  assume p: "json_Unmarshal sc b = Inr p" and u: "\<forall>m\<in>set (Messages p). Role m = ''user''"
  from u have f: "filter (\<lambda>m. Role m = ''user'') (Messages p) = Messages p"
    by (simp add: filter_id_conv)
  show ?thesis using p
    by (simp add: getPromptLength_def analyzePrompt_def foldl_user_length foldl_all_length f
        selectModel_def promptLengthThreshold_def Let_def)
qed

theorem variants_agree_on_user_payloads_witness:
  "json_Unmarshal exampleScan exampleBody = Inr \<lparr>Messages = [\<lparr>Role = ''user'', Content = ''hi''\<rparr>]\<rparr>
   \<and> list_all (\<lambda>m. Role m = ''user'') (Messages \<lparr>Messages = [\<lparr>Role = ''user'', Content = ''hi''\<rparr>]\<rparr>)
   \<and> getPromptLength exampleScan exampleBody = Inr 2
   \<and> analyzePrompt exampleScan exampleBody = (cheapModelURL, ''CheapModel'')"
proof -
  have u: "\<forall>m\<in>set (Messages \<lparr>Messages = [\<lparr>Role = ''user'', Content = ''hi''\<rparr>]\<rparr>). Role m = ''user''"
    by simp
  from variants_agree_on_user_payloads [OF exampleBody_decodes u] exampleBody_decodes
  show ?thesis
    by (auto simp: exampleBody_length selectModel_def promptLengthThreshold_def)
qed

section \<open>The metrics invariant\<close>

lemma usageSum_incr:
  assumes "finite (dom m)"
  shows "usageSum (m(k \<mapsto> usageCount m k + 1)) = usageSum m + 1"
proof (cases "k \<in> dom m")
  case True
  then have d: "dom (m(k \<mapsto> usageCount m k + 1)) = dom m" by auto
  have "usageSum (m(k \<mapsto> usageCount m k + 1))
          = (\<Sum>x\<in>dom m. usageCount (m(k \<mapsto> usageCount m k + 1)) x)"
    by (simp only: usageSum_def d)
  also have "\<dots> = usageCount (m(k \<mapsto> usageCount m k + 1)) k
                    + (\<Sum>x\<in>dom m - {k}. usageCount (m(k \<mapsto> usageCount m k + 1)) x)"
    using assms True by (rule sum.remove)
  also have "\<dots> = (usageCount m k + 1) + (\<Sum>x\<in>dom m - {k}. usageCount m x)"
    by (simp add: usageCount_def)
  also have "\<dots> = (\<Sum>x\<in>dom m. usageCount m x) + 1"
    using sum.remove [OF assms True, of "usageCount m"] by simp
  finally show ?thesis by (simp add: usageSum_def)
next
  case False
  then have "usageCount m k = 0" by (auto simp: usageCount_def split: option.splits)
  moreover have "(\<Sum>x\<in>dom m. usageCount (m(k \<mapsto> 1)) x) = (\<Sum>x\<in>dom m. usageCount m x)"
    using False by (intro sum.cong) (auto simp: usageCount_def)
  ultimately show ?thesis using assms False
    by (simp add: usageSum_def usageCount_def)
qed

lemma estimateCost_nonneg:
  assumes "float64_rounding rnd" and "0 \<le> L" and "0 \<le> rate"
  shows "0 \<le> estimateCost rnd L rate"
proof -
  from assms(1) have mono: "\<And>x y. x \<le> y \<Longrightarrow> rnd x \<le> rnd y" and z: "rnd 0 = 0"
    by (auto simp: float64_rounding_def)
  from mono [of 0 "real_of_int L"] assms(2) z have a: "0 \<le> rnd (real_of_int L)" by simp
  from mono [of 0 rate] assms(3) z have b: "0 \<le> rnd rate" by simp
  from mono [of 0 "rnd (real_of_int L) * rnd rate"] a b z show ?thesis
    by (simp add: estimateCost_def)
qed

lemma costPerChar_nonneg: "0 \<le> costPerChar (selectModel L)"
  by (simp add: selectModel_def cheapModelCostPerChar_def expensiveModelCostPerChar_def)



lemma replied_metrics: "metrics (replied g calls w res) = g"
  by (simp add: replied_def split: option.split)

lemma handler_metrics_analysed:
  assumes "Method r = ''POST''" and "Body r = Inr b" and "getPromptLength (scan W) b = Inr L"
  shows "metrics (LLMProxyHandler W g w r) = g
   \<or> metrics (LLMProxyHandler W g w r)
          = updateMetrics (fl W) (modelName (selectModel L))
              (estimateCost (fl W) L (costPerChar (selectModel L))) g"
  using assms
  by (simp add: LLMProxyHandler_def replied_metrics Let_def
      split: sum.split option.split)

lemma handler_metrics_rejected:
  assumes "Method r \<noteq> ''POST'' \<or> (\<exists>e. Body r = Inl e)
     \<or> (\<exists>b e. Body r = Inr b \<and> getPromptLength (scan W) b = Inl e)"
  shows "metrics (LLMProxyHandler W g w r) = g"
  using assms
  by (auto simp: LLMProxyHandler_def replied_metrics)

lemma handler_metrics:
  "metrics (LLMProxyHandler W g w r) = g
   \<or> (\<exists>L. 0 \<le> L \<and> metrics (LLMProxyHandler W g w r)
          = updateMetrics (fl W) (modelName (selectModel L))
              (estimateCost (fl W) L (costPerChar (selectModel L))) g)"
proof (cases "Method r = ''POST''")
  case False
  then show ?thesis by (simp add: handler_metrics_rejected)
next
  case post: True
  show ?thesis
  proof (cases "Body r")
    case (Inl e)
    then show ?thesis by (simp add: handler_metrics_rejected)
  next
    case body: (Inr b)
    show ?thesis
    proof (cases "getPromptLength (scan W) b")
      case (Inl e)
      with body show ?thesis by (simp add: handler_metrics_rejected)
    next
      case (Inr L)
      then have "0 \<le> L" by (rule getPromptLength_nonneg)
      with handler_metrics_analysed [OF post body Inr, of g w] show ?thesis by blast
    qed
  qed
qed


lemma consistent_start: "float64_rounding rnd \<Longrightarrow> consistent rnd (main_seed globalMetrics)"
  by (simp add: consistent_def main_seed_def globalMetrics_def usageSum_def usageCount_def
      float64_rounding_def)

lemma consistent_update:
  "float64_rounding rnd \<Longrightarrow> consistent rnd g \<Longrightarrow> consistent rnd (updateMetrics rnd name c g)"
  by (simp add: consistent_def updateMetrics_def usageSum_incr float64_rounding_def)

lemma cost_monotone_update:
  assumes "float64_rounding rnd" and "consistent rnd g" and "0 \<le> c"
  shows "TotalCost g \<le> TotalCost (updateMetrics rnd name c g)"
proof -
  from assms(1) have mono: "\<And>x y. x \<le> y \<Longrightarrow> rnd x \<le> rnd y"
    by (auto simp: float64_rounding_def)
  from assms(2) have "TotalCost g = rnd (TotalCost g)" by (simp add: consistent_def)
  also have "\<dots> \<le> rnd (TotalCost g + c)" using assms(3) by (intro mono) simp
  finally show ?thesis by (simp add: updateMetrics_def)
qed

lemma consistent_handler:
  assumes r: "float64_rounding (fl W)" and c: "consistent (fl W) g"
  shows "consistent (fl W) (metrics (LLMProxyHandler W g w r))
         \<and> TotalCost g \<le> TotalCost (metrics (LLMProxyHandler W g w r))"
proof -
  from handler_metrics [of W g w r] consider
      (same) "metrics (LLMProxyHandler W g w r) = g"
    | (upd) L where "0 \<le> L" and "metrics (LLMProxyHandler W g w r)
          = updateMetrics (fl W) (modelName (selectModel L))
              (estimateCost (fl W) L (costPerChar (selectModel L))) g"
    by blast
  then show ?thesis
  proof cases
    case same
    with c show ?thesis by simp
  next
    case upd
    have "0 \<le> estimateCost (fl W) L (costPerChar (selectModel L))"
      using r upd(1) costPerChar_nonneg by (rule estimateCost_nonneg)
    with cost_monotone_update [OF r c] consistent_update [OF r c] upd(2) show ?thesis by simp
  qed
qed

lemma serveAll_snoc:
  "serveAll (reqs @ [(W, r)]) g = metrics (LLMProxyHandler W (serveAll reqs g) newResponse r)"
  by (simp add: serveAll_def)

lemma consistent_serveAll:
  assumes "float64_rounding rnd" and "\<forall>(W, r)\<in>set reqs. fl W = rnd" and "consistent rnd g"
  shows "consistent rnd (serveAll reqs g)"
  using assms(2)
proof (induction reqs rule: rev_induct)
  case Nil
  then show ?case using assms(3) by (simp add: serveAll_def)
next
  case (snoc x xs)
  obtain W r where x: "x = (W, r)" by (cases x)
  with snoc.prems have f: "fl W = rnd" and "\<forall>(W, r)\<in>set xs. fl W = rnd" by auto
  with snoc.IH have "consistent rnd (serveAll xs g)" by simp
  with consistent_handler [of W "serveAll xs g" newResponse r] f assms(1) show ?case
    by (simp add: x serveAll_snoc)
qed

text \<open>
  C6. After \<open>main\<close> has seeded the two tier labels with 0, and after every request
  served from there, \<open>TotalRequests\<close> equals the sum of the counts in \<open>ModelUsage\<close>; and
  serving one more request never lowers \<open>TotalCost\<close>. The rounding \<open>rnd\<close> of the
  platform is any function with the properties of \<open>float64_rounding\<close>.
\<close>

theorem metrics_invariant:
  assumes "float64_rounding rnd" and "\<forall>(W, r)\<in>set reqs. fl W = rnd"
  shows "ModelUsage (main_seed globalMetrics) = [''CheapModel'' \<mapsto> 0, ''ExpensiveModel'' \<mapsto> 0]
     \<and> TotalRequests (main_seed globalMetrics) = usageSum (ModelUsage (main_seed globalMetrics))
     \<and> TotalRequests (serveAll reqs (main_seed globalMetrics))
         = usageSum (ModelUsage (serveAll reqs (main_seed globalMetrics)))
     \<and> (\<forall>W r. fl W = rnd \<longrightarrow>
          TotalCost (serveAll reqs (main_seed globalMetrics))
            \<le> TotalCost (serveAll (reqs @ [(W, r)]) (main_seed globalMetrics)))"
proof -
  have s: "consistent rnd (main_seed globalMetrics)" using assms(1) by (rule consistent_start)
  have c: "consistent rnd (serveAll reqs (main_seed globalMetrics))"
    using assms s by (rule consistent_serveAll)
  have m: "TotalCost (serveAll reqs (main_seed globalMetrics))
            \<le> TotalCost (serveAll (reqs @ [(W, r)]) (main_seed globalMetrics))"
    if "fl W = rnd" for W r
    using consistent_handler [of W "serveAll reqs (main_seed globalMetrics)" newResponse r]
      c assms(1) that
    by (simp add: serveAll_snoc)
  have i: "ModelUsage (main_seed globalMetrics) = [''CheapModel'' \<mapsto> 0, ''ExpensiveModel'' \<mapsto> 0]"
    by (simp add: main_seed_def globalMetrics_def)
  from s c m i show ?thesis by (simp add: consistent_def)
qed

lemma rounding_exact: "float64_rounding (\<lambda>x. x)"
  by (simp add: float64_rounding_def)

lemma ok_request_metrics:
  "metrics (LLMProxyHandler (exampleWorld (Inr (exampleResponse 200))) g newResponse
      (exampleRequest exampleBody))
   = updateMetrics (\<lambda>x. x) ''CheapModel'' (2 / 10000000) g"
  by (simp add: LLMProxyHandler_def exampleBody_length selectModel_def promptLengthThreshold_def
      estimateCost_def cheapModelCostPerChar_def writer_defs Let_def exampleRequest_def
      exampleResponse_def exampleWorld_def)

theorem metrics_invariant_witness:
  "float64_rounding (\<lambda>x. x)
   \<and> list_all (\<lambda>(W, r). fl W = (\<lambda>x. x))
        [(exampleWorld (Inr (exampleResponse 200)), exampleRequest exampleBody)]
   \<and> TotalRequests (serveAll [(exampleWorld (Inr (exampleResponse 200)), exampleRequest exampleBody)]
        (main_seed globalMetrics)) = 1
   \<and> usageSum (ModelUsage (serveAll
        [(exampleWorld (Inr (exampleResponse 200)), exampleRequest exampleBody)]
        (main_seed globalMetrics))) = 1
   \<and> TotalCost (serveAll [(exampleWorld (Inr (exampleResponse 200)), exampleRequest exampleBody)]
        (main_seed globalMetrics)) = 2 / 10000000"
proof -
  have f: "\<forall>(W, r)\<in>set [(exampleWorld (Inr (exampleResponse 200)), exampleRequest exampleBody)].
             fl W = (\<lambda>x. x)"
    by (simp add: exampleWorld_def)
  have t: "serveAll [(exampleWorld (Inr (exampleResponse 200)), exampleRequest exampleBody)]
             (main_seed globalMetrics)
           = updateMetrics (\<lambda>x. x) ''CheapModel'' (2 / 10000000) (main_seed globalMetrics)"
    by (simp add: serveAll_def ok_request_metrics)
  from metrics_invariant [OF rounding_exact f] rounding_exact f t show ?thesis
    by (simp add: updateMetrics_def main_seed_def globalMetrics_def)
qed

section \<open>Upstream failures and the metrics\<close>

text \<open>
  C4 does not hold of the code. The handler passes the status code of the upstream
  response to \<open>w.WriteHeader\<close> unchecked. With an upstream that answers with the status
  code 99, the call has returned a response, \<open>WriteHeader\<close> panics, the handler ends
  before it reaches the update, and the metrics are as before: the completed exchange
  is not counted.
\<close>

theorem invalid_status_not_counted:
  "upstream (LLMProxyHandler (exampleWorld (Inr (exampleResponse 99)))
        (main_seed globalMetrics) newResponse (exampleRequest exampleBody))
     = [\<lparr>ProxyMethod = ''POST'', ProxyURL = cheapModelURL,
         ProxyHeader = [''Authorization'' \<mapsto> [''Bearer secret''],
                        ''Content-Type'' \<mapsto> [''application/json'']],
         ProxyBody = exampleBody\<rparr>]
   \<and> Do (exampleWorld (Inr (exampleResponse 99)))
        \<lparr>ProxyMethod = ''POST'', ProxyURL = cheapModelURL,
         ProxyHeader = [''Authorization'' \<mapsto> [''Bearer secret''],
                        ''Content-Type'' \<mapsto> [''application/json'']],
         ProxyBody = exampleBody\<rparr>
     = Inr (exampleResponse 99)
   \<and> StatusCode (exampleResponse 99) = 99
   \<and> panicked (LLMProxyHandler (exampleWorld (Inr (exampleResponse 99)))
        (main_seed globalMetrics) newResponse (exampleRequest exampleBody))
   \<and> metrics (LLMProxyHandler (exampleWorld (Inr (exampleResponse 99)))
        (main_seed globalMetrics) newResponse (exampleRequest exampleBody))
     = main_seed globalMetrics"
  by (simp add: LLMProxyHandler_def exampleBody_length selectModel_def promptLengthThreshold_def
      newProxyRequest_def resolveAuth_def writer_defs Let_def exampleRequest_def
      exampleResponse_def exampleWorld_def apiKeyEnv_def)

text \<open>
  What the code does otherwise, for a POST request whose body was read and analysed and
  for which the upstream request could be built: a call that fails is answered with
  502 and leaves the metrics as they are; a response with a status code from 100 to 999
  is counted once, with the tier and the cost computed before the call, whatever the
  result of the copy of the body.
\<close>

lemma upstream_failure_not_counted:
  assumes "Method r = ''POST''" and "Body r = Inr b"
    and "getPromptLength (scan W) b = Inr L"
    and "NewRequest W ''POST'' (targetURL (selectModel L)) b = None"
    and "Do W (newProxyRequest W r b (targetURL (selectModel L))) = Inl e"
  shows "status (writer (LLMProxyHandler W g newResponse r)) = 502
     \<and> metrics (LLMProxyHandler W g newResponse r) = g"
  using assms
  by (simp add: LLMProxyHandler_def Let_def replied_def http_Error_def WriteHeader_def
      Write_def commitHeader_def newResponse_def)

lemma valid_status_counted:
  assumes "Method r = ''POST''" and "Body r = Inr b"
    and "getPromptLength (scan W) b = Inr L"
    and "NewRequest W ''POST'' (targetURL (selectModel L)) b = None"
    and "Do W (newProxyRequest W r b (targetURL (selectModel L))) = Inr resp"
    and "100 \<le> StatusCode resp" and "StatusCode resp \<le> 999"
  shows "metrics (LLMProxyHandler W g newResponse r)
           = updateMetrics (fl W) (modelName (selectModel L))
               (estimateCost (fl W) L (costPerChar (selectModel L))) g
     \<and> TotalRequests (metrics (LLMProxyHandler W g newResponse r)) = TotalRequests g + 1"
  using assms
  by (simp add: LLMProxyHandler_def Let_def WriteHeader_def newResponse_def updateMetrics_def)

section \<open>The response headers\<close>

text \<open>
  C2 does not hold of the code. The handler calls \<open>w.WriteHeader(resp.StatusCode)\<close>
  first and copies the upstream header into \<open>w.Header()\<close> afterwards, when the header
  of the response is already fixed. With an upstream that answers 200 with the field
  \<^verbatim>\<open>X-Request-Id: abc\<close>, the caller gets the status 200 and the body, and the header
  sent holds no \<^verbatim>\<open>X-Request-Id\<close>; the field only reaches the handler's own map.
\<close>

theorem upstream_header_not_sent:
  "RespHeader (exampleResponse 200) ''X-Request-Id'' = Some [''abc'']
   \<and> status (finishRequest (writer (LLMProxyHandler (exampleWorld (Inr (exampleResponse 200)))
        (main_seed globalMetrics) newResponse (exampleRequest exampleBody)))) = 200
   \<and> written (finishRequest (writer (LLMProxyHandler (exampleWorld (Inr (exampleResponse 200)))
        (main_seed globalMetrics) newResponse (exampleRequest exampleBody)))) = ''ok''
   \<and> sentHeader (finishRequest (writer (LLMProxyHandler (exampleWorld (Inr (exampleResponse 200)))
        (main_seed globalMetrics) newResponse (exampleRequest exampleBody)))) ''X-Request-Id'' = None
   \<and> handlerHeader (finishRequest (writer (LLMProxyHandler (exampleWorld (Inr (exampleResponse 200)))
        (main_seed globalMetrics) newResponse (exampleRequest exampleBody)))) ''X-Request-Id''
       = Some [''abc'']"
  by (simp add: LLMProxyHandler_def exampleBody_length selectModel_def promptLengthThreshold_def
      streamBack_def writer_defs finishRequest_def Let_def exampleRequest_def exampleResponse_def
      exampleWorld_def)

text \<open>
  The same for every request and every upstream response with a final status code:
  the header sent is the map as the handler received it, empty for a fresh writer.
\<close>

lemma final_status_fixes_header:
  assumes "Method r = ''POST''" and "Body r = Inr b"
    and "getPromptLength (scan W) b = Inr L"
    and "NewRequest W ''POST'' (targetURL (selectModel L)) b = None"
    and "Do W (newProxyRequest W r b (targetURL (selectModel L))) = Inr resp"
    and "StatusCode resp = 101 \<or> (200 \<le> StatusCode resp \<and> StatusCode resp \<le> 999)"
  shows "sentHeader (finishRequest (writer (LLMProxyHandler W g newResponse r))) = Map.empty
     \<and> status (finishRequest (writer (LLMProxyHandler W g newResponse r))) = StatusCode resp"
proof -
  from assms(6) have w: "WriteHeader (StatusCode resp) newResponse
      = Some (commitHeader (StatusCode resp) newResponse)"
    by (auto simp: WriteHeader_def newResponse_def)
  have s: "wroteHeader (streamBack W resp (commitHeader c newResponse))
      \<and> sentHeader (streamBack W resp (commitHeader c newResponse)) = Map.empty
      \<and> status (streamBack W resp (commitHeader c newResponse)) = c" for c
    by (simp add: streamBack_def Write_def commitHeader_def newResponse_def Let_def
        split: prod.split)
  from assms(1-5) w s [of "StatusCode resp"] show ?thesis
    by (simp add: LLMProxyHandler_def Let_def finishRequest_def)
qed

section \<open>Bodies without a user message\<close>

text \<open>
  C9 as stated fails: a well-formed JSON text is rejected as malformed when its shape
  does not fit the payload structure. The body \<^verbatim>\<open>{"messages":[{"role":"system","content":5}]}\<close>
  holds no message with the role \<^verbatim>\<open>user\<close>, and the body \<^verbatim>\<open>[]\<close> has no \<^verbatim>\<open>messages\<close>
  field; the analyser returns an error for both, and the handler answers 400.
\<close>

theorem wellformed_json_rejected:
  "exampleScan systemBody
     = Some (JObject [(''messages'',
          JArray [JObject [(''role'', JString ''system''), (''content'', JNumber ''5'')]])])
   \<and> getPromptLength exampleScan systemBody
     = Inl (Errorf ''failed to unmarshal JSON request body'' UnmarshalTypeError)
   \<and> exampleScan ''[]'' = Some (JArray [])
   \<and> getPromptLength exampleScan ''[]''
     = Inl (Errorf ''failed to unmarshal JSON request body'' UnmarshalTypeError)
   \<and> status (writer (LLMProxyHandler (exampleWorld (Inr (exampleResponse 200)))
        (main_seed globalMetrics) newResponse (exampleRequest systemBody))) = 400"
  by (simp add: LLMProxyHandler_def getPromptLength_def example_defs decode_defs writer_defs
      Let_def)

text \<open>
  Shapes that do decode: an object without a key for \<open>Messages\<close>, and a \<^verbatim>\<open>messages\<close>
  value that is \<^verbatim>\<open>null\<close> or the empty array. Each gives a payload without messages.
\<close>

lemma decode_without_messages:
  "list_all (\<lambda>(k, v). foldName k \<noteq> foldName ''messages'') kvs \<Longrightarrow>
   decodePayload (JObject kvs) p = Inr p"
proof -
  have "list_all (\<lambda>(k, v). foldName k \<noteq> foldName ''messages'') kvs \<Longrightarrow>
        decodePayloadFields kvs p spare = Inr p" for spare
    by (induction kvs) auto
  then show "list_all (\<lambda>(k, v). foldName k \<noteq> foldName ''messages'') kvs \<Longrightarrow>
        decodePayload (JObject kvs) p = Inr p"
    by (simp add: decodePayload_def)
qed

lemma decode_null_or_empty_messages:
  "decodePayload (JObject [(''messages'', JNull)]) \<lparr>Messages = []\<rparr> = Inr \<lparr>Messages = []\<rparr>"
  "decodePayload (JObject [(''messages'', JArray [])]) \<lparr>Messages = []\<rparr> = Inr \<lparr>Messages = []\<rparr>"
  "decodePayload JNull \<lparr>Messages = []\<rparr> = Inr \<lparr>Messages = []\<rparr>"
  by (simp_all add: decodePayload_def decodeMessages_def)

text \<open>
  A well-formed text whose value is neither an object nor \<^verbatim>\<open>null\<close> never decodes.
\<close>

lemma not_an_object_rejected:
  assumes "sc b = Some v" and "v \<noteq> JNull" and "\<forall>kvs. v \<noteq> JObject kvs"
  shows "getPromptLength sc b = Inl (Errorf ''failed to unmarshal JSON request body'' UnmarshalTypeError)"
  using assms by (cases v) (simp_all add: getPromptLength_def json_Unmarshal_def decodePayload_def)

text \<open>
  C9, as the code has it. When the body decodes into a payload that has no message
  with the role \<^verbatim>\<open>user\<close> (a payload without any message included), the analyser
  succeeds with length 0, the selection for it is the cheap model, the estimated cost
  is 0, and the handler passes a request with that body to no other endpoint than the
  cheap one.
\<close>

theorem no_user_message_routes_cheap:
  assumes "json_Unmarshal (scan W) b = Inr p"
    and "\<forall>m\<in>set (Messages p). Role m \<noteq> ''user''"
    and "float64_rounding (fl W)"
    and "Body r = Inr b"
  shows "getPromptLength (scan W) b = Inr 0
   \<and> targetURL (selectModel 0) = cheapModelURL \<and> modelName (selectModel 0) = ''CheapModel''
   \<and> estimateCost (fl W) 0 (costPerChar (selectModel 0)) = 0
   \<and> list_all (\<lambda>q. ProxyURL q = cheapModelURL) (upstream (LLMProxyHandler W g w r))"
proof -
  from assms(2) have "filter (\<lambda>m. Role m = ''user'') (Messages p) = []"
    by (simp add: filter_empty_conv)
  with assms(1) have len: "getPromptLength (scan W) b = Inr 0"
    by (simp add: getPromptLength_def foldl_user_length)
  have sel: "targetURL (selectModel 0) = cheapModelURL \<and> modelName (selectModel 0) = ''CheapModel''"
    by (simp add: selectModel_def promptLengthThreshold_def)
  from assms(3) have "fl W 0 = 0" by (simp add: float64_rounding_def)
  then have cost: "estimateCost (fl W) 0 (costPerChar (selectModel 0)) = 0"
    by (simp add: estimateCost_def)
  have up: "list_all (\<lambda>q. ProxyURL q = cheapModelURL) (upstream (LLMProxyHandler W g w r))"
    using assms(4) len sel
    by (simp add: LLMProxyHandler_def replied_def Let_def newProxyRequest_def
        split: option.split sum.split)
  from len sel cost up show ?thesis by simp
qed


theorem no_user_message_routes_cheap_witness:
  "json_Unmarshal (scan (exampleWorld (Inr (exampleResponse 200)))) briefBody
     = Inr \<lparr>Messages = [\<lparr>Role = ''system'', Content = ''be brief''\<rparr>]\<rparr>
   \<and> list_all (\<lambda>m. Role m \<noteq> ''user'')
        (Messages \<lparr>Messages = [\<lparr>Role = ''system'', Content = ''be brief''\<rparr>]\<rparr>)
   \<and> float64_rounding (fl (exampleWorld (Inr (exampleResponse 200))))
   \<and> Body (exampleRequest briefBody) = Inr briefBody
   \<and> getPromptLength (scan (exampleWorld (Inr (exampleResponse 200)))) briefBody = Inr 0
   \<and> upstream (LLMProxyHandler (exampleWorld (Inr (exampleResponse 200)))
        (main_seed globalMetrics) newResponse (exampleRequest briefBody))
     = [\<lparr>ProxyMethod = ''POST'', ProxyURL = cheapModelURL,
         ProxyHeader = [''Authorization'' \<mapsto> [''Bearer secret''],
                        ''Content-Type'' \<mapsto> [''application/json'']],
         ProxyBody = briefBody\<rparr>]"
proof -
  have d: "json_Unmarshal (scan (exampleWorld (Inr (exampleResponse 200)))) briefBody
     = Inr \<lparr>Messages = [\<lparr>Role = ''system'', Content = ''be brief''\<rparr>]\<rparr>"
    by (simp add: exampleWorld_def briefBody_decodes)
  have u: "\<forall>m\<in>set (Messages \<lparr>Messages = [\<lparr>Role = ''system'', Content = ''be brief''\<rparr>]\<rparr>).
             Role m \<noteq> ''user''"
    by simp
  have f: "float64_rounding (fl (exampleWorld (Inr (exampleResponse 200))))"
    by (simp add: exampleWorld_def float64_rounding_def)
  have b: "Body (exampleRequest briefBody) = Inr briefBody"
    by (simp add: exampleRequest_def)
  from no_user_message_routes_cheap [OF d u f b, of "main_seed globalMetrics" newResponse]
  have len: "getPromptLength (scan (exampleWorld (Inr (exampleResponse 200)))) briefBody = Inr 0"
    by simp
  then have "upstream (LLMProxyHandler (exampleWorld (Inr (exampleResponse 200)))
        (main_seed globalMetrics) newResponse (exampleRequest briefBody))
     = [\<lparr>ProxyMethod = ''POST'', ProxyURL = cheapModelURL,
         ProxyHeader = [''Authorization'' \<mapsto> [''Bearer secret''],
                        ''Content-Type'' \<mapsto> [''application/json'']],
         ProxyBody = briefBody\<rparr>]"
    by (simp add: LLMProxyHandler_def selectModel_def promptLengthThreshold_def
        newProxyRequest_def resolveAuth_def writer_defs Let_def exampleRequest_def
        exampleResponse_def exampleWorld_def apiKeyEnv_def)
  with d f b len show ?thesis by simp
qed

section \<open>Concurrent updates\<close>

lemma sum_list_map_update:
  fixes f :: "'a \<Rightarrow> int"
  shows "i < length xs \<Longrightarrow> sum_list (map f (xs[i := y])) = sum_list (map f xs) + f y - f (xs ! i)"
  by (induction xs arbitrary: i) (auto split: nat.splits)

lemma step_out_of_range: "\<not> i < length (goroutines c) \<Longrightarrow> step rnd i c = c"
  by (simp add: step_def)

lemma invariant_finite:
  assumes "invariant c"
  shows "finite (dom (ModelUsage (shared (step rnd i c))))"
proof (cases "i < length (goroutines c)")
  case False
  with assms show ?thesis by (simp add: step_out_of_range invariant_def)
next
  case True
  from assms have f: "finite (dom (ModelUsage (shared c)))" by (simp add: invariant_def)
  show ?thesis
  proof (cases "job (goroutines c ! i)")
    case (Record name cost)
    with True f show ?thesis
      by (cases "pc (goroutines c ! i)") (simp_all add: step_def goroutineStep_def)
  next
    case Report
    with True f show ?thesis
      by (cases "pc (goroutines c ! i)") (simp_all add: step_def goroutineStep_def)
  qed
qed

lemma invariant_total:
  assumes "invariant c"
  shows "TotalRequests (shared (step rnd i c)) = sum_list (map addedTotal (goroutines (step rnd i c)))"
proof (cases "i < length (goroutines c)")
  case False
  with assms show ?thesis by (simp add: step_out_of_range invariant_def)
next
  case True
  from assms have s: "TotalRequests (shared c) = sum_list (map addedTotal (goroutines c))"
    and l: "localInv (shared c) (goroutines c ! i)"
    using True by (simp_all add: invariant_def)
  show ?thesis
  proof (cases "job (goroutines c ! i)")
    case (Record name cost)
    with True s l show ?thesis
      by (cases "pc (goroutines c ! i)")
        (simp_all add: step_def goroutineStep_def sum_list_map_update addedTotal_def
          localInv_def isRecord_def)
  next
    case Report
    with True s l show ?thesis
      by (cases "pc (goroutines c ! i)")
        (simp_all add: step_def goroutineStep_def sum_list_map_update addedTotal_def
          localInv_def isRecord_def)
  qed
qed

lemma invariant_usage:
  assumes "invariant c"
  shows "usageSum (ModelUsage (shared (step rnd i c)))
           = sum_list (map addedUsage (goroutines (step rnd i c)))"
proof (cases "i < length (goroutines c)")
  case False
  with assms show ?thesis by (simp add: step_out_of_range invariant_def)
next
  case True
  from assms have s: "usageSum (ModelUsage (shared c)) = sum_list (map addedUsage (goroutines c))"
    and l: "localInv (shared c) (goroutines c ! i)"
    and f: "finite (dom (ModelUsage (shared c)))"
    using True by (simp_all add: invariant_def)
  show ?thesis
  proof (cases "job (goroutines c ! i)")
    case (Record name cost)
    with True s l f show ?thesis
      by (cases "pc (goroutines c ! i)")
        (simp_all add: step_def goroutineStep_def sum_list_map_update addedUsage_def
          localInv_def isRecord_def usageSum_incr)
  next
    case Report
    with True s l show ?thesis
      by (cases "pc (goroutines c ! i)")
        (simp_all add: step_def goroutineStep_def sum_list_map_update addedUsage_def
          localInv_def isRecord_def)
  qed
qed

lemma config_eta: "\<lparr>shared = shared c, locked = locked c, goroutines = goroutines c\<rparr> = c"
  by simp

lemma step_shape:
  assumes "i < length (goroutines c)" and "localInv (shared c) (goroutines c ! i)"
  shows "goroutines (step rnd i c) = (goroutines c)[i := goroutines (step rnd i c) ! i]
     \<and> job (goroutines (step rnd i c) ! i) = job (goroutines c ! i)
     \<and> (step rnd i c = c
        \<or> (pc (goroutines c ! i) = AtLock \<and> \<not> locked c \<and> locked (step rnd i c)
            \<and> inCritical (goroutines (step rnd i c) ! i))
        \<or> (inCritical (goroutines c ! i) \<and> inCritical (goroutines (step rnd i c) ! i)
            \<and> locked (step rnd i c) = locked c)
        \<or> (inCritical (goroutines c ! i) \<and> pc (goroutines (step rnd i c) ! i) = Returned
            \<and> \<not> locked (step rnd i c)))"
proof (cases "job (goroutines c ! i)")
  case (Record name cost)
  with assms show ?thesis
    by (cases "pc (goroutines c ! i)")
      (simp_all add: step_def goroutineStep_def inCritical_def localInv_def config_eta)
next
  case Report
  with assms show ?thesis
    by (cases "pc (goroutines c ! i)")
      (simp_all add: step_def goroutineStep_def inCritical_def localInv_def config_eta)
qed

lemma invariant_lock:
  assumes "invariant c"
  shows "(locked (step rnd i c)
            \<longleftrightarrow> (\<exists>j<length (goroutines (step rnd i c)). inCritical (goroutines (step rnd i c) ! j)))
         \<and> (\<forall>j<length (goroutines (step rnd i c)). \<forall>k<length (goroutines (step rnd i c)).
               inCritical (goroutines (step rnd i c) ! j) \<and> inCritical (goroutines (step rnd i c) ! k)
               \<longrightarrow> j = k)"
proof (cases "i < length (goroutines c)")
  case False
  with assms show ?thesis by (simp add: step_out_of_range invariant_def)
next
  case True
  let ?ts = "goroutines c"
  from assms have lk: "locked c \<longleftrightarrow> (\<exists>j<length ?ts. inCritical (?ts ! j))"
    and un: "\<forall>j<length ?ts. \<forall>k<length ?ts. inCritical (?ts ! j) \<and> inCritical (?ts ! k) \<longrightarrow> j = k"
    and l: "localInv (shared c) (?ts ! i)"
    using True by (simp_all add: invariant_def)
  define t' where "t' = goroutines (step rnd i c) ! i"
  from step_shape [OF True l, of rnd] have
    ts': "goroutines (step rnd i c) = ?ts[i := t']"
    and shape: "step rnd i c = c
        \<or> (pc (?ts ! i) = AtLock \<and> \<not> locked c \<and> locked (step rnd i c) \<and> inCritical t')
        \<or> (inCritical (?ts ! i) \<and> inCritical t' \<and> locked (step rnd i c) = locked c)
        \<or> (inCritical (?ts ! i) \<and> pc t' = Returned \<and> \<not> locked (step rnd i c))"
    by (simp_all add: t'_def)
  from shape consider
      (stay) "step rnd i c = c"
    | (acquire) "\<not> locked c" "locked (step rnd i c)" "inCritical t'"
    | (inside) "inCritical (?ts ! i)" "inCritical t'" "locked (step rnd i c) = locked c"
    | (release) "inCritical (?ts ! i)" "pc t' = Returned" "\<not> locked (step rnd i c)"
    by blast
  then show ?thesis
  proof cases
    case stay
    with lk un show ?thesis by simp
  next
    case acquire
    from acquire(1) lk have none: "\<forall>j<length ?ts. \<not> inCritical (?ts ! j)" by blast
    have "\<exists>j<length ?ts. inCritical (?ts[i := t'] ! j)"
      using True acquire(3) by (intro exI [of _ i]) simp
    moreover have "\<forall>j<length ?ts. \<forall>k<length ?ts.
        inCritical (?ts[i := t'] ! j) \<and> inCritical (?ts[i := t'] ! k) \<longrightarrow> j = k"
      using none True by (auto simp: nth_list_update split: if_splits)
    ultimately show ?thesis using acquire(2) by (simp add: ts')
  next
    case inside
    from un True inside(1) have oth: "\<forall>k<length ?ts. k \<noteq> i \<longrightarrow> \<not> inCritical (?ts ! k)" by blast
    from inside(1) True lk have "locked c" by blast
    moreover have "\<exists>j<length ?ts. inCritical (?ts[i := t'] ! j)"
      using True inside(2) by (intro exI [of _ i]) simp
    moreover have "\<forall>j<length ?ts. \<forall>k<length ?ts.
        inCritical (?ts[i := t'] ! j) \<and> inCritical (?ts[i := t'] ! k) \<longrightarrow> j = k"
      using oth True by (auto simp: nth_list_update split: if_splits)
    ultimately show ?thesis using inside(3) by (simp add: ts')
  next
    case release
    from un True release(1) have oth: "\<forall>k<length ?ts. k \<noteq> i \<longrightarrow> \<not> inCritical (?ts ! k)" by blast
    from release(2) have "\<not> inCritical t'" by (simp add: inCritical_def)
    with oth True have "\<forall>j<length ?ts. \<not> inCritical (?ts[i := t'] ! j)"
      by (auto simp: nth_list_update)
    with release(3) show ?thesis by (simp add: ts')
  qed
qed

lemma localInv_outside: "\<not> inCritical t \<Longrightarrow> localInv g t \<Longrightarrow> localInv g' t"
  by (auto simp: inCritical_def localInv_def split: job.splits)

lemma added_outside: "\<not> inCritical t \<Longrightarrow> addedTotal t = addedUsage t"
  by (auto simp: inCritical_def addedTotal_def addedUsage_def)

lemma added_report: "job t = Report \<Longrightarrow> addedTotal t = addedUsage t"
  by (simp add: addedTotal_def addedUsage_def isRecord_def)

lemma reporter_sees_consistent:
  assumes "invariant c" and "i < length (goroutines c)"
    and "job (goroutines c ! i) = Report" and "inCritical (goroutines c ! i)"
  shows "TotalRequests (shared c) = usageSum (ModelUsage (shared c))"
proof -
  from assms(1) have un: "\<forall>j<length (goroutines c). \<forall>k<length (goroutines c).
       inCritical (goroutines c ! j) \<and> inCritical (goroutines c ! k) \<longrightarrow> j = k"
    by (simp add: invariant_def)
  have "addedTotal t = addedUsage t" if "t \<in> set (goroutines c)" for t
  proof -
    from that obtain j where j: "j < length (goroutines c)" "goroutines c ! j = t"
      by (auto simp: in_set_conv_nth)
    show ?thesis
    proof (cases "j = i")
      case True
      with j assms(3) show ?thesis by (simp add: added_report)
    next
      case False
      with un j(1) assms(2,4) have "\<not> inCritical (goroutines c ! j)" by blast
      with j(2) show ?thesis by (simp add: added_outside)
    qed
  qed
  then have "map addedTotal (goroutines c) = map addedUsage (goroutines c)" by simp
  with assms(1) show ?thesis by (simp add: invariant_def)
qed

lemma step_shared:
  "i < length (goroutines c) \<Longrightarrow> shared (step rnd i c) = shared c \<or> inCritical (goroutines c ! i)"
  by (cases "job (goroutines c ! i)"; cases "pc (goroutines c ! i)")
    (simp_all add: step_def goroutineStep_def inCritical_def)

lemma step_local_self:
  assumes "invariant c" and "i < length (goroutines c)"
  shows "localInv (shared (step rnd i c)) (goroutines (step rnd i c) ! i)"
proof -
  from assms have l: "localInv (shared c) (goroutines c ! i)" by (simp add: invariant_def)
  show ?thesis
  proof (cases "job (goroutines c ! i)")
    case (Record name cost)
    with assms(2) l show ?thesis
      by (cases "pc (goroutines c ! i)")
        (simp_all add: step_def goroutineStep_def localInv_def usageCount_def)
  next
    case Report
    have "TotalRequests (shared c) = usageSum (ModelUsage (shared c))"
      if "pc (goroutines c ! i) = ReadModelUsage"
      using reporter_sees_consistent [OF assms Report] that by (simp add: inCritical_def)
    with Report assms(2) l show ?thesis
      by (cases "pc (goroutines c ! i)")
        (simp_all add: step_def goroutineStep_def localInv_def)
  qed
qed

lemma invariant_local:
  assumes "invariant c" and "j < length (goroutines (step rnd i c))"
  shows "localInv (shared (step rnd i c)) (goroutines (step rnd i c) ! j)"
proof (cases "i < length (goroutines c)")
  case False
  with assms show ?thesis by (simp add: step_out_of_range invariant_def)
next
  case True
  from assms(1) True have l: "localInv (shared c) (goroutines c ! i)" by (simp add: invariant_def)
  note shape = step_shape [OF True l, of rnd]
  from shape have len: "length (goroutines (step rnd i c)) = length (goroutines c)"
    by (metis length_list_update)
  show ?thesis
  proof (cases "j = i")
    case True
    with assms(1) \<open>i < length (goroutines c)\<close> show ?thesis by (simp add: step_local_self)
  next
    case False
    from shape False have same: "goroutines (step rnd i c) ! j = goroutines c ! j"
      by (metis nth_list_update_neq)
    from assms len have lj: "localInv (shared c) (goroutines c ! j)" by (simp add: invariant_def)
    from step_shared [OF True, of rnd] show ?thesis
    proof
      assume "shared (step rnd i c) = shared c"
      with lj same show ?thesis by simp
    next
      assume "inCritical (goroutines c ! i)"
      with assms len True False have "\<not> inCritical (goroutines c ! j)"
        by (auto simp: invariant_def)
      with lj same show ?thesis by (simp add: localInv_outside)
    qed
  qed
qed

lemma step_length: "length (goroutines (step rnd i c)) = length (goroutines c)"
  by (simp add: step_def split: prod.split)

lemma step_invariant: "invariant c \<Longrightarrow> invariant (step rnd i c)"
  using invariant_finite [of c rnd i] invariant_total [of c rnd i] invariant_usage [of c rnd i]
    invariant_lock [of c rnd i] invariant_local [of c _ rnd i]
  by (simp add: invariant_def [of "step rnd i c"])

lemma run_Nil: "run rnd [] c = c"
  by (simp add: run_def)

lemma run_Cons: "run rnd (i # rest) c = run rnd rest (step rnd i c)"
  by (simp add: run_def)

lemma run_append: "run rnd (xs @ ys) c = run rnd ys (run rnd xs c)"
  by (simp add: run_def)

lemma run_invariant: "invariant c \<Longrightarrow> invariant (run rnd schedule c)"
  by (induction schedule arbitrary: c) (simp_all add: run_Nil run_Cons step_invariant)

lemma initial_invariant: "invariant (initial jobs)"
proof -
  have a: "sum_list (map addedTotal (map spawn jobs)) = 0"
    by (induction jobs) (simp_all add: addedTotal_def spawn_def)
  have b: "sum_list (map addedUsage (map spawn jobs)) = 0"
    by (induction jobs) (simp_all add: addedUsage_def spawn_def)
  have c: "usageSum (ModelUsage (main_seed globalMetrics)) = 0"
    by (simp add: usageSum_def usageCount_def main_seed_def globalMetrics_def)
  have d: "localInv g (spawn j)" for g j
    by (simp add: localInv_def spawn_def split: job.split)
  have e: "\<not> inCritical (spawn j)" for j
    by (simp add: inCritical_def spawn_def)
  from a b c d e show ?thesis
    by (simp add: invariant_def initial_def main_seed_def globalMetrics_def)
qed

lemma step_jobs: "map job (goroutines (step rnd i c)) = map job (goroutines c)"
proof (cases "i < length (goroutines c)")
  case False
  then show ?thesis by (simp add: step_out_of_range)
next
  case True
  have "job (fst (goroutineStep rnd t l g)) = job t" for t l g
    by (cases "job t"; cases "pc t") (simp_all add: goroutineStep_def)
  then have "job (fst (goroutineStep rnd (goroutines c ! i) (locked c) (shared c)))
               = job (goroutines c ! i)" .
  with True show ?thesis
    by (simp add: step_def map_update split: prod.split) (metis fst_conv list_update_id map_update)
qed

lemma run_jobs: "map job (goroutines (run rnd schedule c)) = map job (goroutines c)"
  by (induction schedule arbitrary: c) (simp_all add: run_Nil run_Cons step_jobs)

lemma returned_count:
  "list_all (\<lambda>t. pc t = Returned) ts \<Longrightarrow>
   sum_list (map addedTotal ts) = int (length (filter isRecord (map job ts)))
   \<and> sum_list (map addedUsage ts) = int (length (filter isRecord (map job ts)))"
  by (induction ts) (simp_all add: addedTotal_def addedUsage_def)

lemma sum_list_update_less:
  fixes f :: "'a \<Rightarrow> nat"
  shows "i < length xs \<Longrightarrow> f y < f (xs ! i) \<Longrightarrow> sum_list (map f (xs[i := y])) < sum_list (map f xs)"
  by (induction xs arbitrary: i) (auto split: nat.splits)

lemma step_advances:
  assumes "i < length (goroutines c)" and "localInv (shared c) (goroutines c ! i)"
    and "inCritical (goroutines c ! i) \<or> (pc (goroutines c ! i) = AtLock \<and> \<not> locked c)"
  shows "remaining (step rnd i c) < remaining c"
proof -
  obtain t' l' g' where s: "goroutineStep rnd (goroutines c ! i) (locked c) (shared c) = (t', l', g')"
    by (cases "goroutineStep rnd (goroutines c ! i) (locked c) (shared c)")
  have "stepsLeft (pc t') < stepsLeft (pc (goroutines c ! i))"
    using s assms(2,3)
    by (cases "job (goroutines c ! i)"; cases "pc (goroutines c ! i)")
      (auto simp: goroutineStep_def localInv_def inCritical_def)
  with assms(1) s show ?thesis
    by (simp add: remaining_def step_def sum_list_update_less)
qed

lemma progress:
  assumes "invariant c" and "\<not> allReturned c"
  shows "\<exists>i. remaining (step rnd i c) < remaining c"
proof (cases "locked c")
  case True
  with assms(1) obtain i where i: "i < length (goroutines c)" "inCritical (goroutines c ! i)"
    by (auto simp: invariant_def)
  with assms(1) have "localInv (shared c) (goroutines c ! i)" by (simp add: invariant_def)
  with i show ?thesis by (blast intro: step_advances)
next
  case False
  with assms(1) have none: "\<forall>i<length (goroutines c). \<not> inCritical (goroutines c ! i)"
    by (simp add: invariant_def)
  from assms(2) obtain i where i: "i < length (goroutines c)" "pc (goroutines c ! i) \<noteq> Returned"
    by (auto simp: allReturned_def list_all_length)
  with none have "pc (goroutines c ! i) = AtLock" by (auto simp: inCritical_def)
  moreover from assms(1) i(1) have "localInv (shared c) (goroutines c ! i)"
    by (simp add: invariant_def)
  ultimately show ?thesis using i(1) False by (blast intro: step_advances)
qed

lemma completes: "invariant c \<Longrightarrow> \<exists>rest. allReturned (run rnd rest c)"
proof (induction "remaining c" arbitrary: c rule: less_induct)
  case less
  show ?case
  proof (cases "allReturned c")
    case True
    then have "allReturned (run rnd [] c)" by (simp add: run_Nil)
    then show ?thesis ..
  next
    case False
    from progress [OF less.prems False, of rnd] obtain i
      where "remaining (step rnd i c) < remaining c" ..
    moreover from less.prems have "invariant (step rnd i c)" by (rule step_invariant)
    ultimately obtain rest where "allReturned (run rnd rest (step rnd i c))"
      using less.hyps by blast
    then have "allReturned (run rnd (i # rest) c)" by (simp add: run_Cons)
    then show ?thesis ..
  qed
qed

lemma unlocked_consistent:
  assumes "invariant c" and "\<not> locked c"
  shows "TotalRequests (shared c) = usageSum (ModelUsage (shared c))"
proof -
  from assms have "\<forall>i<length (goroutines c). \<not> inCritical (goroutines c ! i)"
    by (simp add: invariant_def)
  then have "\<forall>t\<in>set (goroutines c). addedTotal t = addedUsage t"
    by (auto simp: in_set_conv_nth added_outside)
  then have "map addedTotal (goroutines c) = map addedUsage (goroutines c)" by simp
  with assms(1) show ?thesis by (simp add: invariant_def)
qed

lemma snapshot_consistent:
  assumes "invariant c" and "t \<in> set (goroutines c)" and "job t = Report"
    and "pc t = AtUnlock \<or> pc t = Returned"
  shows "TotalRequests (seen t) = usageSum (ModelUsage (seen t))"
proof -
  from assms(1,2) have "localInv (shared c) t" by (auto simp: invariant_def in_set_conv_nth)
  with assms(3,4) show ?thesis by (auto simp: localInv_def)
qed

text \<open>
  C7. Start any number of goroutines on the freshly seeded metrics, \<open>N\<close> of them
  recording and the others reporting, and let them take their steps in any order.
  When all have returned, \<open>TotalRequests\<close> is \<open>N\<close> and the counts of \<open>ModelUsage\<close> add
  up to \<open>N\<close>: no update is lost. Whenever the mutex is free the total equals the sum of
  the counts, and the copy a reporting goroutine has read has a total equal to the sum
  of its counts: no snapshot is torn. Every schedule can be continued to one in which
  all goroutines have returned.
\<close>

theorem no_lost_update_no_torn_snapshot:
  "(allReturned (run rnd schedule (initial jobs)) \<longrightarrow>
      TotalRequests (shared (run rnd schedule (initial jobs))) = int (length (filter isRecord jobs))
      \<and> usageSum (ModelUsage (shared (run rnd schedule (initial jobs))))
          = int (length (filter isRecord jobs)))
   \<and> (\<not> locked (run rnd schedule (initial jobs)) \<longrightarrow>
        TotalRequests (shared (run rnd schedule (initial jobs)))
          = usageSum (ModelUsage (shared (run rnd schedule (initial jobs)))))
   \<and> (\<forall>t\<in>set (goroutines (run rnd schedule (initial jobs))).
        job t = Report \<and> (pc t = AtUnlock \<or> pc t = Returned) \<longrightarrow>
        TotalRequests (seen t) = usageSum (ModelUsage (seen t)))
   \<and> (\<exists>rest. allReturned (run rnd (schedule @ rest) (initial jobs)))"
proof -
  let ?c = "run rnd schedule (initial jobs)"
  have inv: "invariant ?c" by (simp add: run_invariant initial_invariant)
  have jobs: "map job (goroutines ?c) = jobs"
    by (simp add: run_jobs initial_def spawn_def comp_def)
  have final: "TotalRequests (shared ?c) = int (length (filter isRecord jobs))
      \<and> usageSum (ModelUsage (shared ?c)) = int (length (filter isRecord jobs))"
    if "allReturned ?c"
  proof -
    from that have "list_all (\<lambda>t. pc t = Returned) (goroutines ?c)" by (simp add: allReturned_def)
    from returned_count [OF this] inv jobs show ?thesis by (simp add: invariant_def)
  qed
  from completes [OF inv, of rnd] have "\<exists>rest. allReturned (run rnd (schedule @ rest) (initial jobs))"
    by (simp add: run_append)
  with final unlocked_consistent [OF inv] snapshot_consistent [OF inv] show ?thesis by blast
qed

lemmas run_defs = run_def step_def goroutineStep_def initial_def spawn_def main_seed_def
  globalMetrics_def

lemma record_job_alone:
  "shared (run rnd [0, 0, 0, 0, 0, 0, 0, 0]
      \<lparr>shared = g, locked = False, goroutines = [spawn (Record name cost)]\<rparr>)
   = updateMetrics rnd name cost g"
  by (simp add: run_defs updateMetrics_def)

lemma exampleRun_returned: "allReturned (run (\<lambda>x. x) exampleSchedule (initial exampleJobs))"
  by (simp add: run_defs exampleJobs_def exampleSchedule_def allReturned_def)

lemma exampleRun_report:
  "length (goroutines (run (\<lambda>x. x) exampleSchedule (initial exampleJobs))) = 3"
  "job (goroutines (run (\<lambda>x. x) exampleSchedule (initial exampleJobs)) ! 1) = Report"
  "pc (goroutines (run (\<lambda>x. x) exampleSchedule (initial exampleJobs)) ! 1) = Returned"
  "TotalRequests (seen (goroutines (run (\<lambda>x. x) exampleSchedule (initial exampleJobs)) ! 1)) = 1"
  by (simp_all add: run_defs exampleJobs_def exampleSchedule_def)

theorem no_lost_update_no_torn_snapshot_witness:
  "allReturned (run (\<lambda>x. x) exampleSchedule (initial exampleJobs))
   \<and> length (filter isRecord exampleJobs) = 2
   \<and> TotalRequests (shared (run (\<lambda>x. x) exampleSchedule (initial exampleJobs))) = 2
   \<and> usageSum (ModelUsage (shared (run (\<lambda>x. x) exampleSchedule (initial exampleJobs)))) = 2
   \<and> job (goroutines (run (\<lambda>x. x) exampleSchedule (initial exampleJobs)) ! 1) = Report
   \<and> pc (goroutines (run (\<lambda>x. x) exampleSchedule (initial exampleJobs)) ! 1) = Returned
   \<and> TotalRequests (seen (goroutines (run (\<lambda>x. x) exampleSchedule (initial exampleJobs)) ! 1)) = 1
   \<and> usageSum (ModelUsage (seen (goroutines (run (\<lambda>x. x) exampleSchedule (initial exampleJobs)) ! 1)))
       = 1"
proof -
  let ?c = "run (\<lambda>x. x) exampleSchedule (initial exampleJobs)"
  have n: "length (filter isRecord exampleJobs) = 2"
    by (simp add: exampleJobs_def isRecord_def)
  have m: "goroutines ?c ! 1 \<in> set (goroutines ?c)"
    by (rule nth_mem) (simp add: exampleRun_report)
  from no_lost_update_no_torn_snapshot [of "\<lambda>x. x" exampleSchedule exampleJobs] exampleRun_returned n
  have total: "TotalRequests (shared ?c) = 2 \<and> usageSum (ModelUsage (shared ?c)) = 2"
    by simp
  from no_lost_update_no_torn_snapshot [of "\<lambda>x. x" exampleSchedule exampleJobs] m exampleRun_report
  have "usageSum (ModelUsage (seen (goroutines ?c ! 1))) = 1"
    by auto
  with total n exampleRun_returned exampleRun_report show ?thesis by simp
qed

end
